theory Spec2Isabelle
  imports Main "HOL-Library.Sublist" "HOL-Library.AList"
begin

section \<open>Python values\<close>

text \<open>
  A Python \<open>str\<close> is a sequence of Unicode code points and \<open>len\<close> counts code points,
  so a string is modelled as a list of code points. \<open>ascii\<close> turns a literal into one.
\<close>

type_synonym pystr = "nat list"

definition ascii :: "string \<Rightarrow> pystr" where
  "ascii s = map of_char s"

definition NL :: nat where
  "NL = 10"

text \<open>The separator \<open>'\n\n'\<close> of \<open>split_text\<close>.\<close>

definition NLNL :: pystr where
  "NLNL = [NL, NL]"

text \<open>
  The exceptions the modelled functions raise. \<open>Failure n\<close> is the plain \<open>Exception\<close>
  that \<open>process_all_parts\<close> and \<open>process_all_files\<close> raise, whose message carries the
  number \<open>n\<close> of underlying errors.
\<close>

datatype py_error =
    KeyError
  | TypeError
  | AttributeError
  | ValueError
  | ZeroDivisionError
  | YAMLError
  | TransportError
  | Failure nat

text \<open>
  What \<open>yaml.safe_load\<close> returns: \<open>None\<close>, integers, strings, lists and dicts. The keys of
  a dict are strings, and a dict keeps its insertion order (an association list). Booleans,
  floats and timestamps are not modelled.
\<close>

datatype yval =
    YNone
  | YInt int
  | YStr pystr
  | YList "yval list"
  | YDict "(pystr \<times> yval) list"

subsection \<open>String builtins\<close>

text \<open>The code points for which \<open>str.isspace\<close> holds; \<open>str.strip()\<close> removes them.\<close>

definition isspace :: "nat \<Rightarrow> bool" where
  "isspace c \<longleftrightarrow>
     (9 \<le> c \<and> c \<le> 13) \<or> (28 \<le> c \<and> c \<le> 32) \<or> c = 133 \<or> c = 160 \<or> c = 5760 \<or>
     (8192 \<le> c \<and> c \<le> 8202) \<or> c = 8232 \<or> c = 8233 \<or> c = 8239 \<or> c = 8287 \<or> c = 12288"

definition py_strip :: "pystr \<Rightarrow> pystr" where
  "py_strip s = rev (dropWhile isspace (rev (dropWhile isspace s)))"

text \<open>
  \<open>s.split(sep)\<close> for a non-empty separator: the pieces between the non-overlapping
  occurrences of \<open>sep\<close>, found from the left. The result is never empty.
\<close>

function py_split :: "pystr \<Rightarrow> pystr \<Rightarrow> pystr list" where
  "py_split sep [] = [[]]"
| "py_split sep (c # cs) =
     (if sep \<noteq> [] \<and> prefix sep (c # cs)
      then [] # py_split sep (drop (length sep) (c # cs))
      else (case py_split sep cs of
              [] \<Rightarrow> [[c]]
            | p # ps \<Rightarrow> (c # p) # ps))"
  by pat_completeness auto
termination
  by (relation "measure (\<lambda>(sep, s). length s)") (auto simp: neq_Nil_conv)

declare py_split.simps(2) [simp del]

text \<open>\<open>s.replace(old, '')\<close> for a non-empty \<open>old\<close>: every occurrence removed, from the left.\<close>

function py_remove :: "pystr \<Rightarrow> pystr \<Rightarrow> pystr" where
  "py_remove old [] = []"
| "py_remove old (c # cs) =
     (if old \<noteq> [] \<and> prefix old (c # cs)
      then py_remove old (drop (length old) (c # cs))
      else c # py_remove old cs)"
  by pat_completeness auto
termination
  by (relation "measure (\<lambda>(old, s). length s)") (auto simp: neq_Nil_conv)

declare py_remove.simps(2) [simp del]

text \<open>\<open>sep.join(xs)\<close> for a list of strings.\<close>

fun py_join :: "pystr \<Rightarrow> pystr list \<Rightarrow> pystr" where
  "py_join sep [] = []"
| "py_join sep [x] = x"
| "py_join sep (x # y # ys) = x @ sep @ py_join sep (y # ys)"

text \<open>\<open>xs[i:j]\<close> for indices \<open>0 \<le> i\<close>, \<open>0 \<le> j\<close>; it is empty when \<open>j \<le> i\<close>.\<close>

definition py_slice :: "nat \<Rightarrow> nat \<Rightarrow> 'a list \<Rightarrow> 'a list" where
  "py_slice i j xs = take (j - i) (drop i xs)"

text \<open>\<open>xs[:k]\<close> for any integer \<open>k\<close>: a negative \<open>k\<close> counts from the end.\<close>

definition py_take :: "int \<Rightarrow> 'a list \<Rightarrow> 'a list" where
  "py_take k xs = (if 0 \<le> k then take (nat k) xs else take (length xs - nat (- k)) xs)"

text \<open>
  \<open>list(range(0, n, step))\<close> for \<open>0 \<le> n\<close>: a zero step raises \<open>ValueError\<close>, a negative
  step gives the empty range.
\<close>

definition py_range0 :: "nat \<Rightarrow> int \<Rightarrow> py_error + nat list" where
  "py_range0 n step =
     (if step = 0 then Inl ValueError
      else if step < 0 then Inr []
      else Inr (map (\<lambda>j. j * nat step) [0..<(n + nat step - 1) div nat step]))"

text \<open>
  \<open>math.ceil(a / b)\<close> on integers. The source divides as floats; the quotient of two
  list lengths is far below the range where the float and the exact quotient differ.
\<close>

definition ceil_div :: "int \<Rightarrow> int \<Rightarrow> int" where
  "ceil_div a b = - ((- a) div b)"

text \<open>\<open>str(n)\<close> for a natural number: its decimal digits.\<close>

fun str_nat :: "nat \<Rightarrow> pystr" where
  "str_nat n = (if n < 10 then [48 + n] else str_nat (n div 10) @ [48 + n mod 10])"

declare str_nat.simps [simp del]

section \<open>The chunker: \<open>split_text\<close> (utils.py, lines 12-39)\<close>

text \<open>Line 24: the paragraphs of a text, blank ones dropped.\<close>

definition paragraphs_of :: "pystr \<Rightarrow> pystr list" where
  "paragraphs_of text = filter (\<lambda>p. py_strip p \<noteq> []) (py_split NLNL text)"

definition split_text :: "pystr \<Rightarrow> int \<Rightarrow> py_error + pystr list" where
  "split_text text num_parts =
     (let paragraphs = paragraphs_of text in
      if int (length paragraphs) \<le> num_parts then Inr paragraphs
      else if num_parts = 0 then Inl ZeroDivisionError
      else
        let paragraphs_per_part = ceil_div (int (length paragraphs)) num_parts in
        case py_range0 (length paragraphs) paragraphs_per_part of
          Inl e \<Rightarrow> Inl e
        | Inr idxs \<Rightarrow>
            Inr (filter (\<lambda>part. py_strip part \<noteq> [])
                   (map (\<lambda>i. py_join NLNL
                           (py_slice i (i + nat paragraphs_per_part) paragraphs)) idxs)))"


section \<open>Reading dynamically typed values\<close>

text \<open>The keys the code reads and writes.\<close>

definition k_lecture_name :: pystr where "k_lecture_name = ascii ''lecture_name''"
definition k_sections :: pystr where "k_sections = ascii ''sections''"
definition k_name :: pystr where "k_name = ascii ''name''"
definition k_slides :: pystr where "k_slides = ascii ''slides''"
definition k_number :: pystr where "k_number = ascii ''number''"
definition k_title :: pystr where "k_title = ascii ''title''"
definition k_content :: pystr where "k_content = ascii ''content''"
definition k_teaching_points :: pystr where "k_teaching_points = ascii ''teaching_points''"

text \<open>\<open>v.get(key, dflt)\<close>: only a dict has \<open>get\<close>.\<close>

definition dict_get :: "yval \<Rightarrow> pystr \<Rightarrow> yval \<Rightarrow> py_error + yval" where
  "dict_get v key dflt =
     (case v of
        YDict d \<Rightarrow> Inr (case map_of d key of None \<Rightarrow> dflt | Some x \<Rightarrow> x)
      | _ \<Rightarrow> Inl AttributeError)"

text \<open>
  \<open>v[key]\<close> with a string key: a dict without the key raises \<open>KeyError\<close>, every other
  value raises \<open>TypeError\<close>.
\<close>

definition subscript :: "yval \<Rightarrow> pystr \<Rightarrow> py_error + yval" where
  "subscript v key =
     (case v of
        YDict d \<Rightarrow> (case map_of d key of None \<Rightarrow> Inl KeyError | Some x \<Rightarrow> Inr x)
      | _ \<Rightarrow> Inl TypeError)"

text \<open>
  \<open>for x in v\<close>: the elements of a list, the keys of a dict, the characters of a string;
  \<open>None\<close> and integers are not iterable.
\<close>

definition py_iter :: "yval \<Rightarrow> py_error + yval list" where
  "py_iter v =
     (case v of
        YList xs \<Rightarrow> Inr xs
      | YDict d \<Rightarrow> Inr (map (\<lambda>kv. YStr (fst kv)) d)
      | YStr s \<Rightarrow> Inr (map (\<lambda>c. YStr [c]) s)
      | _ \<Rightarrow> Inl TypeError)"

text \<open>The truth value of \<open>v\<close>, as \<open>if not v\<close> tests it.\<close>

definition truthy :: "yval \<Rightarrow> bool" where
  "truthy v =
     (case v of
        YNone \<Rightarrow> False
      | YInt i \<Rightarrow> i \<noteq> 0
      | YStr s \<Rightarrow> s \<noteq> []
      | YList xs \<Rightarrow> xs \<noteq> []
      | YDict d \<Rightarrow> d \<noteq> [])"

text \<open>Lists and dicts cannot be keys of a dict.\<close>

definition hashable :: "yval \<Rightarrow> bool" where
  "hashable v = (case v of YList _ \<Rightarrow> False | YDict _ \<Rightarrow> False | _ \<Rightarrow> True)"

text \<open>\<open>sep.join(xs)\<close> on a list of values: every element must be a string.\<close>

fun strs_of :: "yval list \<Rightarrow> py_error + pystr list" where
  "strs_of [] = Inr []"
| "strs_of (x # xs) =
     (case x of
        YStr s \<Rightarrow> (case strs_of xs of Inl e \<Rightarrow> Inl e | Inr ss \<Rightarrow> Inr (s # ss))
      | _ \<Rightarrow> Inl TypeError)"

definition str_join :: "pystr \<Rightarrow> yval list \<Rightarrow> py_error + pystr" where
  "str_join sep xs = (case strs_of xs of Inl e \<Rightarrow> Inl e | Inr ss \<Rightarrow> Inr (py_join sep ss))"

text \<open>\<open>sep.join(v)\<close> on any value: it iterates \<open>v\<close> first.\<close>

definition join_iter :: "pystr \<Rightarrow> yval \<Rightarrow> py_error + pystr" where
  "join_iter sep v = (case py_iter v of Inl e \<Rightarrow> Inl e | Inr xs \<Rightarrow> str_join sep xs)"

text \<open>
  \<open>[point.strip() for point in r.split("\n") if point.strip()]\<close> (lines 179, 194, 229, 233).
\<close>

definition lines_of :: "pystr \<Rightarrow> yval list" where
  "lines_of r = map (\<lambda>point. YStr (py_strip point))
                  (filter (\<lambda>point. py_strip point \<noteq> []) (py_split [NL] r))"

text \<open>A loop that stops at the first exception.\<close>

fun foldM :: "('s \<Rightarrow> 'a \<Rightarrow> py_error + 's) \<Rightarrow> 's \<Rightarrow> 'a list \<Rightarrow> py_error + 's" where
  "foldM f s [] = Inr s"
| "foldM f s (x # xs) = (case f s x of Inl e \<Rightarrow> Inl e | Inr s' \<Rightarrow> foldM f s' xs)"

fun mapM :: "('a \<Rightarrow> py_error + 'b) \<Rightarrow> 'a list \<Rightarrow> py_error + 'b list" where
  "mapM f [] = Inr []"
| "mapM f (x # xs) =
     (case f x of
        Inl e \<Rightarrow> Inl e
      | Inr y \<Rightarrow> (case mapM f xs of Inl e \<Rightarrow> Inl e | Inr ys \<Rightarrow> Inr (y # ys)))"

section \<open>Documents\<close>

text \<open>
  A slide is a dict with string keys. The documents handed to the size adjuster are built by
  \<open>analyze_content\<close> itself (lines 420-431), so a section always has the keys \<open>number\<close>,
  \<open>name\<close> and \<open>slides\<close> and a document the keys \<open>lecture_name\<close> and \<open>sections\<close>: they
  are records. No two slides of a document are the same object, so updating one slide
  in place changes no other.
\<close>

type_synonym slide = "(pystr \<times> yval) list"

record section_data =
  number :: pystr
  name :: yval
  slides :: "slide list"

record yaml_file =
  lecture_name :: yval
  sections :: "section_data list"

text \<open>
  What the code takes from outside. \<open>chat\<close> is the analysis request of
  \<open>analyze_content_part\<close> for a part, its number and the number of parts; \<open>llm\<close> is the
  request of \<open>summarize_with_openai_async\<close> for the number of requests made before it, the
  text and \<open>max_tokens\<close>. Both give the content of the response, or \<open>None\<close> when the request
  raises. \<open>safe_load\<close> is \<open>yaml.safe_load\<close> (\<open>None\<close> when it raises), \<open>dump\<close> is the text
  \<open>yaml.dump(d, allow_unicode=True)\<close>, \<open>py_repr\<close> is \<open>str\<close> on a value that is not a
  string, and the remaining fields are the f-string templates of lines 169, 184, 218, 244
  and 247.
\<close>

record env =
  chat :: "pystr \<Rightarrow> nat \<Rightarrow> nat \<Rightarrow> pystr option"
  llm :: "nat \<Rightarrow> pystr \<Rightarrow> int \<Rightarrow> pystr option"
  safe_load :: "pystr \<Rightarrow> yval option"
  dump :: "yaml_file \<Rightarrow> pystr"
  py_repr :: "yval \<Rightarrow> pystr"
  expansion_prompt :: "pystr \<Rightarrow> pystr"
  points_prompt :: "pystr \<Rightarrow> pystr"
  limit_prompt :: "pystr \<Rightarrow> pystr"
  slide_line :: "pystr \<Rightarrow> pystr \<Rightarrow> pystr \<Rightarrow> pystr \<Rightarrow> pystr"
  summary_prompt :: "pystr \<Rightarrow> pystr"

text \<open>
  Lines 157 and 238: the size the code measures, \<open>len(yaml.dump(\<dots>))\<close>, is the number of
  characters of the dump.
\<close>

definition dump_len :: "env \<Rightarrow> yaml_file \<Rightarrow> nat" where
  "dump_len E d = length (dump E d)"

text \<open>
  The number of bytes of the dump when it is written as UTF-8, as \<open>allow_unicode=True\<close>
  leaves every character as it is: a character takes one to four bytes.
\<close>

definition utf8_len :: "nat \<Rightarrow> nat" where
  "utf8_len c = (if c < 128 then 1 else if c < 2048 then 2 else if c < 65536 then 3 else 4)"

definition dump_bytes :: "env \<Rightarrow> yaml_file \<Rightarrow> nat" where
  "dump_bytes E d = sum_list (map utf8_len (dump E d))"

text \<open>\<open>str(v)\<close>, also the way an f-string formats \<open>v\<close>.\<close>

definition py_str :: "env \<Rightarrow> yval \<Rightarrow> pystr" where
  "py_str E v = (case v of YStr s \<Rightarrow> s | _ \<Rightarrow> py_repr E v)"


section \<open>Analysing the parts (utils.py, lines 89-132 and 332-363)\<close>

text \<open>
  \<open>analyze_content_part\<close>: the request, the code fences removed from the answer, the
  answer parsed as YAML. Every exception is raised again (lines 128 and 132).
\<close>

definition analyze_content_part :: "env \<Rightarrow> pystr \<Rightarrow> nat \<Rightarrow> nat \<Rightarrow> py_error + yval" where
  "analyze_content_part E part part_num total_parts =
     (case chat E part part_num total_parts of
        None \<Rightarrow> Inl TransportError
      | Some content \<Rightarrow>
          (let yaml_text =
                 py_strip (py_remove (ascii ''```'') (py_remove (ascii ''```yaml'') content))
           in case safe_load E yaml_text of
                None \<Rightarrow> Inl YAMLError
              | Some yaml_data \<Rightarrow> Inr yaml_data))"

text \<open>
  \<open>process_all_parts\<close>: \<open>asyncio.gather(*tasks, return_exceptions=True)\<close> returns one
  result per task, in the order of the tasks, an exception standing for a task that
  raised. The results are returned only when none of them is an exception.
\<close>

definition process_all_parts :: "env \<Rightarrow> pystr list \<Rightarrow> py_error + yval list" where
  "process_all_parts E text_parts =
     (let results = map (\<lambda>(i, part). analyze_content_part E part i (length text_parts))
                      (enumerate 0 text_parts);
          errors = filter isl results
      in if errors \<noteq> [] then Inl (Failure (length errors)) else Inr (map projr results))"

section \<open>Grouping the slides by section (utils.py, lines 370-404)\<close>

text \<open>
  \<open>sections_dict\<close> maps a section name to its slides, in insertion order; \<open>section_order\<close>
  lists the names as they were first seen.
\<close>

type_synonym sections_dict = "(yval \<times> slide list) list"

text \<open>Lines 398-403: the dict built for a slide.\<close>

definition slide_data :: "nat \<Rightarrow> yval \<Rightarrow> py_error + slide" where
  "slide_data slide_num slide =
     (case subscript slide k_title of
        Inl e \<Rightarrow> Inl e
      | Inr title \<Rightarrow>
     (case subscript slide k_content of
        Inl e \<Rightarrow> Inl e
      | Inr content \<Rightarrow>
     (case dict_get slide k_teaching_points (YList []) of
        Inl e \<Rightarrow> Inl e
      | Inr tp \<Rightarrow>
     (case join_iter [NL] tp of
        Inl e \<Rightarrow> Inl e
      | Inr points \<Rightarrow>
          Inr [(k_number, YStr (str_nat slide_num)), (k_title, title),
               (k_content, content), (k_teaching_points, YStr points)]))))"

text \<open>Line 404: \<open>sections_dict[section_name].append(slide_data)\<close>.\<close>

definition append_slide :: "yval \<Rightarrow> sections_dict \<Rightarrow> slide \<Rightarrow> py_error + sections_dict" where
  "append_slide section_name d s =
     (case map_of d section_name of
        None \<Rightarrow> Inl KeyError
      | Some ss \<Rightarrow> Inr (AList.update section_name (ss @ [s]) d))"

text \<open>Lines 388-404: the body of the loop over the sections of a part.\<close>

definition merge_section ::
  "sections_dict \<times> yval list \<Rightarrow> yval \<Rightarrow> py_error + sections_dict \<times> yval list" where
  "merge_section st sec =
     (case dict_get sec k_name YNone of
        Inl e \<Rightarrow> Inl e
      | Inr section_name \<Rightarrow>
          if \<not> truthy section_name then Inr st
          else if \<not> hashable section_name then Inl TypeError
          else
            (let st' = (if map_of (fst st) section_name = None
                        then (AList.update section_name [] (fst st), snd st @ [section_name])
                        else st)
             in case dict_get sec k_slides (YList []) of
                  Inl e \<Rightarrow> Inl e
                | Inr sl \<Rightarrow>
                    (case py_iter sl of
                       Inl e \<Rightarrow> Inl e
                     | Inr items \<Rightarrow>
                         (case foldM (\<lambda>d (slide_num, slide).
                                        case slide_data slide_num slide of
                                          Inl e \<Rightarrow> Inl e
                                        | Inr sd \<Rightarrow> append_slide section_name d sd)
                                 (fst st') (enumerate 1 items) of
                            Inl e \<Rightarrow> Inl e
                          | Inr d' \<Rightarrow> Inr (d', snd st')))))"

text \<open>Lines 382-404: the body of the loop over the parts.\<close>

definition merge_part ::
  "sections_dict \<times> yval list \<Rightarrow> yval \<Rightarrow> py_error + sections_dict \<times> yval list" where
  "merge_part st part =
     (case dict_get part k_sections (YList []) of
        Inl e \<Rightarrow> Inl e
      | Inr secs \<Rightarrow>
          (case py_iter secs of
             Inl e \<Rightarrow> Inl e
           | Inr items \<Rightarrow> foldM merge_section st items))"

text \<open>Lines 370-404: the lecture name of the first part, then the loop over the parts.\<close>

definition merge_parts :: "yval list \<Rightarrow> py_error + yval \<times> sections_dict \<times> yval list" where
  "merge_parts yaml_parts =
     (case yaml_parts of
        [] \<Rightarrow> Inl ValueError
      | first # _ \<Rightarrow>
          (case dict_get first k_lecture_name YNone of
             Inl e \<Rightarrow> Inl e
           | Inr ln \<Rightarrow>
               if ln = YNone then Inl ValueError
               else (case foldM merge_part ([], []) yaml_parts of
                       Inl e \<Rightarrow> Inl e
                     | Inr (d, section_order) \<Rightarrow> Inr (ln, d, section_order))))"

section \<open>Splitting into files (utils.py, lines 406-431)\<close>

definition sections_per_file :: "yval list \<Rightarrow> nat" where
  "sections_per_file section_order = max 1 (length section_order div 8)"

text \<open>Lines 415-425: the sections of file \<open>i\<close>.\<close>

definition file_sections :: "sections_dict \<Rightarrow> yval list \<Rightarrow> nat \<Rightarrow> py_error + section_data list" where
  "file_sections d section_order i =
     (let start_idx = i * sections_per_file section_order;
          end_idx = (if i < 7 then (i + 1) * sections_per_file section_order
                     else length section_order)
      in mapM (\<lambda>(section_num, section_name).
                 case map_of d section_name of
                   None \<Rightarrow> Inl KeyError
                 | Some ss \<Rightarrow>
                     Inr \<lparr>number = str_nat section_num, name = section_name, slides = ss\<rparr>)
           (enumerate 1 (py_slice start_idx end_idx section_order)))"

text \<open>Lines 414-432: the documents handed to the size adjuster, empty ones left out.\<close>

definition yaml_files :: "yval \<Rightarrow> sections_dict \<Rightarrow> yval list \<Rightarrow> py_error + yaml_file list" where
  "yaml_files ln d section_order =
     (case mapM (file_sections d section_order) [0..<8] of
        Inl e \<Rightarrow> Inl e
      | Inr fss \<Rightarrow>
          Inr (map (\<lambda>fs. \<lparr>lecture_name = ln, sections = fs\<rparr>) (filter (\<lambda>fs. fs \<noteq> []) fss)))"


section \<open>The size adjuster (utils.py, lines 74-87 and 134-317)\<close>

definition truncate_content :: "pystr \<Rightarrow> int \<Rightarrow> pystr" where
  "truncate_content content max_length =
     (if int (length content) \<le> max_length then content
      else py_take (max_length - 3) content @ ascii ''...'')"

text \<open>
  \<open>summarize_with_openai_async\<close>: the \<open>n\<close>-th request. Every exception of the request is
  caught (line 149) and answered with the truncated input. The result comes with the
  number of requests made so far.
\<close>

definition summarize_with_openai_async :: "env \<Rightarrow> pystr \<Rightarrow> int \<Rightarrow> nat \<Rightarrow> pystr \<times> nat" where
  "summarize_with_openai_async E content max_tokens n =
     (case llm E n content max_tokens of
        Some r \<Rightarrow> (py_strip r, Suc n)
      | None \<Rightarrow> (truncate_content content max_tokens, Suc n))"

text \<open>A loop over a list that makes requests and stops at the first exception.\<close>

fun mapM_llm ::
  "('a \<Rightarrow> nat \<Rightarrow> (py_error + 'b) \<times> nat) \<Rightarrow> 'a list \<Rightarrow> nat \<Rightarrow> (py_error + 'b list) \<times> nat" where
  "mapM_llm f [] n = (Inr [], n)"
| "mapM_llm f (x # xs) n =
     (case f x n of
        (Inl e, n') \<Rightarrow> (Inl e, n')
      | (Inr y, n') \<Rightarrow>
          (case mapM_llm f xs n' of
             (Inl e, n'') \<Rightarrow> (Inl e, n'')
           | (Inr ys, n'') \<Rightarrow> (Inr (y # ys), n'')))"

subsection \<open>Expansion (lines 160-196)\<close>

text \<open>Lines 167-179.\<close>

definition expand_content :: "env \<Rightarrow> slide \<Rightarrow> nat \<Rightarrow> (py_error + slide) \<times> nat" where
  "expand_content E slide n =
     (case map_of slide k_content of
        Some (YList items) \<Rightarrow>
          (case str_join [NL] items of
             Inl e \<Rightarrow> (Inl e, n)
           | Inr content_text \<Rightarrow>
               (case summarize_with_openai_async E (expansion_prompt E content_text) 300 n of
                  (expanded_content, n') \<Rightarrow>
                    (Inr (AList.update k_content (YList (lines_of expanded_content)) slide), n')))
      | _ \<Rightarrow> (Inr slide, n))"

text \<open>Lines 182-194.\<close>

definition expand_points :: "env \<Rightarrow> slide \<Rightarrow> nat \<Rightarrow> (py_error + slide) \<times> nat" where
  "expand_points E slide n =
     (case map_of slide k_teaching_points of
        None \<Rightarrow> (Inr slide, n)
      | Some tp \<Rightarrow>
          (case (case tp of YStr s \<Rightarrow> Inr s | _ \<Rightarrow> join_iter [NL] tp) of
             Inl e \<Rightarrow> (Inl e, n)
           | Inr points_text \<Rightarrow>
               (case summarize_with_openai_async E (points_prompt E points_text) 200 n of
                  (expanded_points, n') \<Rightarrow>
                    (Inr (AList.update k_teaching_points (YList (lines_of expanded_points)) slide),
                     n'))))"

definition expand_slide :: "env \<Rightarrow> slide \<Rightarrow> nat \<Rightarrow> (py_error + slide) \<times> nat" where
  "expand_slide E slide n =
     (case expand_content E slide n of
        (Inl e, n') \<Rightarrow> (Inl e, n')
      | (Inr slide', n') \<Rightarrow> expand_points E slide' n')"

definition expand_section ::
  "env \<Rightarrow> section_data \<Rightarrow> nat \<Rightarrow> (py_error + section_data) \<times> nat" where
  "expand_section E sec n =
     (case mapM_llm (expand_slide E) (slides sec) n of
        (Inl e, n') \<Rightarrow> (Inl e, n')
      | (Inr ss, n') \<Rightarrow> (Inr (sec\<lparr>slides := ss\<rparr>), n'))"

subsection \<open>Compression of every slide (lines 202-235)\<close>

datatype task_type = Content | ContentLimit | TeachingPoints

text \<open>
  Lines 210-223: the requests for one slide and the tasks they leave. The source keeps
  one list of tasks, each with a reference to its slide; here the tasks stay grouped by
  slide, in the same order. A task only changes its own slide, so the order between the
  tasks of different slides is not observable.
\<close>

definition slide_tasks ::
  "env \<Rightarrow> slide \<Rightarrow> nat \<Rightarrow> (py_error + (task_type \<times> pystr) list) \<times> nat" where
  "slide_tasks E slide n =
     (case (case map_of slide k_content of
              None \<Rightarrow> (Inr [], n)
            | Some (YList items) \<Rightarrow>
                (case str_join [NL] items of
                   Inl e \<Rightarrow> (Inl e, n)
                 | Inr combined_content \<Rightarrow>
                     (case summarize_with_openai_async E combined_content 150 n of
                        (r1, n1) \<Rightarrow>
                          if length items > 5
                          then (case summarize_with_openai_async E
                                       (limit_prompt E combined_content) 200 n1 of
                                  (r2, n2) \<Rightarrow> (Inr [(Content, r1), (ContentLimit, r2)], n2))
                          else (Inr [(Content, r1)], n1)))
            | Some c \<Rightarrow>
                (case summarize_with_openai_async E (py_str E c) 100 n of
                   (r, n1) \<Rightarrow> (Inr [(Content, r)], n1))) of
        (Inl e, n') \<Rightarrow> (Inl e, n')
      | (Inr ts, n') \<Rightarrow>
          (case map_of slide k_teaching_points of
             None \<Rightarrow> (Inr ts, n')
           | Some tp \<Rightarrow>
               (case summarize_with_openai_async E (py_str E tp) 200 n' of
                  (r, n'') \<Rightarrow> (Inr (ts @ [(TeachingPoints, r)]), n''))))"

text \<open>Lines 226-235: one task applied to its slide.\<close>

definition apply_task :: "slide \<Rightarrow> task_type \<times> pystr \<Rightarrow> py_error + slide" where
  "apply_task slide task =
     (case task of
        (Content, result) \<Rightarrow>
          (case map_of slide k_content of
             None \<Rightarrow> Inl KeyError
           | Some (YList items) \<Rightarrow> Inr (AList.update k_content (YList (lines_of result)) slide)
           | Some c \<Rightarrow> Inr (AList.update k_content (YStr result) slide))
      | (ContentLimit, result) \<Rightarrow>
          Inr (AList.update k_content (YList (take 5 (lines_of result))) slide)
      | (TeachingPoints, result) \<Rightarrow> Inr (AList.update k_teaching_points (YStr result) slide))"

definition section_tasks ::
  "env \<Rightarrow> section_data \<Rightarrow> nat \<Rightarrow> (py_error + (task_type \<times> pystr) list list) \<times> nat" where
  "section_tasks E sec n = mapM_llm (slide_tasks E) (slides sec) n"

definition apply_section_tasks ::
  "section_data \<times> (task_type \<times> pystr) list list \<Rightarrow> py_error + section_data" where
  "apply_section_tasks p =
     (case mapM (\<lambda>(slide, ts). foldM apply_task slide ts) (zip (slides (fst p)) (snd p)) of
        Inl e \<Rightarrow> Inl e
      | Inr ss \<Rightarrow> Inr ((fst p)\<lparr>slides := ss\<rparr>))"

text \<open>Lines 202-235: all requests first, then all tasks applied.\<close>

definition compress :: "env \<Rightarrow> yaml_file \<Rightarrow> nat \<Rightarrow> (py_error + yaml_file) \<times> nat" where
  "compress E yaml_data n =
     (case mapM_llm (section_tasks E) (sections yaml_data) n of
        (Inl e, n') \<Rightarrow> (Inl e, n')
      | (Inr tasks, n') \<Rightarrow>
          (case mapM apply_section_tasks (zip (sections yaml_data) tasks) of
             Inl e \<Rightarrow> (Inl e, n')
           | Inr secs \<Rightarrow> (Inr (yaml_data\<lparr>sections := secs\<rparr>), n')))"

subsection \<open>Summarising a section again (lines 239-315)\<close>

text \<open>Line 244: the text of one slide; \<open>slide['number']\<close> and \<open>slide['title']\<close> may raise.\<close>

definition slide_text :: "env \<Rightarrow> slide \<Rightarrow> py_error + pystr" where
  "slide_text E slide =
     (case subscript (YDict slide) k_number of
        Inl e \<Rightarrow> Inl e
      | Inr num \<Rightarrow>
          (case subscript (YDict slide) k_title of
             Inl e \<Rightarrow> Inl e
           | Inr title \<Rightarrow>
               Inr (slide_line E (py_str E num) (py_str E title)
                      (py_str E (case map_of slide k_content of None \<Rightarrow> YStr [] | Some c \<Rightarrow> c))
                      (py_str E (case map_of slide k_teaching_points of
                                   None \<Rightarrow> YStr [] | Some t \<Rightarrow> t)))))"

text \<open>Lines 263-284. The last title is \<open>"\<dots> " + str(index + 1)\<close>, with a Japanese word.\<close>

definition create_slide_dict :: "yval \<Rightarrow> nat \<Rightarrow> slide" where
  "create_slide_dict sd index =
     (case sd of
        YDict d \<Rightarrow>
          [(k_number, YStr (str_nat (index + 1))),
           (k_title, case map_of d k_title of None \<Rightarrow> YStr [] | Some x \<Rightarrow> x),
           (k_content, case map_of d k_content of None \<Rightarrow> YList [] | Some x \<Rightarrow> x),
           (k_teaching_points, case map_of d k_teaching_points of None \<Rightarrow> YStr [] | Some x \<Rightarrow> x)]
      | YStr s \<Rightarrow>
          [(k_number, YStr (str_nat (index + 1))), (k_title, YStr s),
           (k_content, YList []), (k_teaching_points, YStr [])]
      | _ \<Rightarrow>
          [(k_number, YStr (str_nat (index + 1))),
           (k_title, YStr ([12473, 12521, 12452, 12489, 32] @ str_nat (index + 1))),
           (k_content, YList []), (k_teaching_points, YStr [])])"

text \<open>Lines 286-297: the list the new slides are made of.\<close>

definition slides_data :: "env \<Rightarrow> yval \<Rightarrow> py_error + yval list" where
  "slides_data E summarized_data =
     (case summarized_data of
        YDict d \<Rightarrow>
          (case map_of d k_slides of
             Some v \<Rightarrow> py_iter v
           | None \<Rightarrow> Inr [summarized_data])
      | YList xs \<Rightarrow> Inr xs
      | _ \<Rightarrow> Inr [YStr (py_str E summarized_data)])"

text \<open>Line 299.\<close>

definition numbered_slides :: "yval list \<Rightarrow> slide list" where
  "numbered_slides items = map (\<lambda>(i, slide). create_slide_dict slide i) (enumerate 0 items)"

text \<open>Lines 307-315: the slides set when the \<open>try\<close> block raised.\<close>

definition fallback_slides :: "env \<Rightarrow> slide list \<Rightarrow> slide list" where
  "fallback_slides E slides0 =
     map (\<lambda>(i, slide).
            [(k_number, YStr (str_nat (i + 1))), (k_title, YStr (py_str E (YDict slide))),
             (k_content, YList []), (k_teaching_points, YStr [])])
       (enumerate 0 (take 10 slides0))"

text \<open>
  Lines 258-315, the \<open>try\<close> statement: the slides that replace the slides \<open>slides0\<close> of a
  section when the answer of the request is \<open>summarized_slides\<close>. \<open>yaml.safe_load\<close> may
  raise, and so may the loop of line 299 over a value that is not iterable; both end in the
  \<open>except\<close> branch.
\<close>

definition replacement_slides :: "env \<Rightarrow> slide list \<Rightarrow> pystr \<Rightarrow> slide list" where
  "replacement_slides E slides0 summarized_slides =
     (case safe_load E summarized_slides of
        None \<Rightarrow> fallback_slides E slides0
      | Some summarized_data \<Rightarrow>
          (case slides_data E summarized_data of
             Inl e \<Rightarrow> fallback_slides E slides0
           | Inr items \<Rightarrow> numbered_slides items))"

text \<open>Lines 240-315: the body of the loop over the sections.\<close>

definition resummarize_section ::
  "env \<Rightarrow> section_data \<Rightarrow> nat \<Rightarrow> (py_error + section_data) \<times> nat" where
  "resummarize_section E sec n =
     (if length (slides sec) > 10 then
        (case mapM (slide_text E) (slides sec) of
           Inl e \<Rightarrow> (Inl e, n)
         | Inr texts \<Rightarrow>
             (case summarize_with_openai_async E (summary_prompt E (py_join NLNL texts)) 1000 n of
                (summarized_slides, n') \<Rightarrow>
                  (Inr (sec\<lparr>slides := replacement_slides E (slides sec) summarized_slides\<rparr>),
                   n')))
      else (Inr sec, n))"

subsection \<open>\<open>adjust_yaml_size_async\<close> (lines 153-317)\<close>

definition adjust_yaml_size_async ::
  "env \<Rightarrow> yaml_file \<Rightarrow> int \<Rightarrow> nat \<Rightarrow> (py_error + yaml_file) \<times> nat" where
  "adjust_yaml_size_async E yaml_data max_chars n =
     (let current_size = dump_len E yaml_data in
      if current_size < 8000 then
        (case mapM_llm (expand_section E) (sections yaml_data) n of
           (Inl e, n') \<Rightarrow> (Inl e, n')
         | (Inr secs, n') \<Rightarrow> (Inr (yaml_data\<lparr>sections := secs\<rparr>), n'))
      else if int current_size \<le> max_chars then (Inr yaml_data, n)
      else
        (case compress E yaml_data n of
           (Inl e, n') \<Rightarrow> (Inl e, n')
         | (Inr adjusted_data, n') \<Rightarrow>
             if int (dump_len E adjusted_data) > max_chars then
               (case mapM_llm (resummarize_section E) (sections adjusted_data) n' of
                  (Inl e, n'') \<Rightarrow> (Inl e, n'')
                | (Inr secs, n'') \<Rightarrow> (Inr (adjusted_data\<lparr>sections := secs\<rparr>), n''))
             else (Inr adjusted_data, n')))"


section \<open>Predicates used in the proofs\<close>

text \<open>
  A piece returned by \<open>split('\n\n')\<close> holds no blank line (\<open>nonn\<close>), and only the last
  piece can end with a newline (\<open>seps_ok\<close>).
\<close>

fun nonn :: "pystr \<Rightarrow> bool" where
  "nonn [] = True"
| "nonn [c] = True"
| "nonn (c1 # c2 # cs) = (\<not> (c1 = NL \<and> c2 = NL) \<and> nonn (c2 # cs))"

definition ends_nl :: "pystr \<Rightarrow> bool" where
  "ends_nl p \<longleftrightarrow> p \<noteq> [] \<and> last p = NL"

fun seps_ok :: "pystr list \<Rightarrow> bool" where
  "seps_ok [] = True"
| "seps_ok [p] = True"
| "seps_ok (p # q # ps) = (\<not> ends_nl p \<and> seps_ok (q # ps))"


text \<open>
  While the parts are merged, the keys of \<open>sections_dict\<close> are the names in
  \<open>section_order\<close>, each once.
\<close>

definition merge_inv :: "sections_dict \<times> yval list \<Rightarrow> bool" where
  "merge_inv st \<longleftrightarrow> map fst (fst st) = snd st \<and> distinct (snd st)"

text \<open>
  The names in the order in which they are first seen: \<open>register\<close> is lines 393-395, and
  \<open>part_names\<close> lists the names of the sections of a part that have one.
\<close>

definition register :: "yval \<Rightarrow> yval list \<Rightarrow> yval list" where
  "register nm order = (if nm \<in> set order then order else order @ [nm])"

definition first_seen :: "yval list \<Rightarrow> yval list" where
  "first_seen names = fold register names []"

definition section_names :: "yval \<Rightarrow> yval list" where
  "section_names sec =
     (case dict_get sec k_name YNone of
        Inr nm \<Rightarrow> if truthy nm then [nm] else []
      | Inl e \<Rightarrow> [])"

definition part_names :: "yval \<Rightarrow> yval list" where
  "part_names part =
     (case dict_get part k_sections (YList []) of
        Inr secs \<Rightarrow> (case py_iter secs of Inr items \<Rightarrow> concat (map section_names items) | Inl e \<Rightarrow> [])
      | Inl e \<Rightarrow> [])"

text \<open>The section built at lines 420-424 for a numbered name.\<close>

definition section_of :: "sections_dict \<Rightarrow> nat \<times> yval \<Rightarrow> section_data" where
  "section_of d p = \<lparr>number = str_nat (fst p), name = snd p, slides = the (map_of d (snd p))\<rparr>"

text \<open>The result of the \<open>i\<close>-th task of \<open>process_all_parts\<close>.\<close>

definition part_result :: "env \<Rightarrow> pystr list \<Rightarrow> nat \<Rightarrow> py_error + yval" where
  "part_result E text_parts i = analyze_content_part E (text_parts ! i) i (length text_parts)"

text \<open>What the size adjuster keeps of a section when it only rewrites slides.\<close>

definition same_shape :: "section_data \<Rightarrow> section_data \<Rightarrow> bool" where
  "same_shape sec sec' \<longleftrightarrow>
     number sec' = number sec \<and> name sec' = name sec \<and>
     length (slides sec') = length (slides sec)"

text \<open>
  The requests of lines 240-315. \<open>section_answer E sec m\<close> is \<open>summarized_slides\<close> of line
  257, the answer to the request for the section \<open>sec\<close> when \<open>m\<close> requests were made before
  it; \<open>requests_before secs i\<close> counts the sections before the \<open>i\<close>-th that make such a
  request; \<open>resummarized E sec m\<close> is the section the loop leaves. \<open>answer_items\<close> gives the
  items an answer parses to, \<open>None\<close> when the \<open>except\<close> branch is taken.
\<close>

definition section_answer :: "env \<Rightarrow> section_data \<Rightarrow> nat \<Rightarrow> pystr" where
  "section_answer E sec m =
     (case mapM (slide_text E) (slides sec) of
        Inl e \<Rightarrow> []
      | Inr texts \<Rightarrow>
          fst (summarize_with_openai_async E (summary_prompt E (py_join NLNL texts)) 1000 m))"

definition requests_before :: "section_data list \<Rightarrow> nat \<Rightarrow> nat" where
  "requests_before secs i = length (filter (\<lambda>sec. 10 < length (slides sec)) (take i secs))"

definition resummarized :: "env \<Rightarrow> section_data \<Rightarrow> nat \<Rightarrow> section_data" where
  "resummarized E sec m =
     (if 10 < length (slides sec)
      then sec\<lparr>slides := replacement_slides E (slides sec) (section_answer E sec m)\<rparr>
      else sec)"




text \<open>The exceptions that can leave the size adjuster.\<close>

definition local_error :: "py_error \<Rightarrow> bool" where
  "local_error e \<longleftrightarrow> e = TypeError \<or> e = KeyError"

section \<open>Inputs of the examples\<close>

text \<open>
  \<open>str\<close> of a value that is not a string, as Python prints it when every string in it is
  made of printable characters without quotes and backslashes.
\<close>

fun simple_repr :: "yval \<Rightarrow> pystr" where
  "simple_repr YNone = ascii ''None''"
| "simple_repr (YInt i) = (if i < 0 then 45 # str_nat (nat (- i)) else str_nat (nat i))"
| "simple_repr (YStr s) = 39 # s @ [39]"
| "simple_repr (YList xs) = 91 # py_join (ascii '', '') (map simple_repr xs) @ [93]"
| "simple_repr (YDict d) =
     123 # py_join (ascii '', '')
             (map (\<lambda>kv. 39 # fst kv @ [39, 58, 32] @ simple_repr (snd kv)) d) @ [125]"

text \<open>
  \<open>yaml.safe_load\<close> on the answers used below: \<open>'['\<close> raises, \<open>'[]'\<close> is the empty list,
  \<open>'- title: X'\<close> is a list of one dict, and the other answers used are plain scalars.
\<close>

definition example_load :: "pystr \<Rightarrow> yval option" where
  "example_load s =
     (if s = ascii ''['' then None
      else if s = ascii ''[]'' then Some (YList [])
      else if s = ascii ''- title: X'' then Some (YList [YDict [(k_title, YStr (ascii ''X''))]])
      else Some (YStr s))"

text \<open>A text of \<open>n\<close> characters \<open>T\<close>.\<close>

definition long_text :: "nat \<Rightarrow> pystr" where
  "long_text n = replicate n 84"

text \<open>A text of \<open>n\<close> characters U+3042, the hiragana letter a, three bytes each in UTF-8.\<close>

definition kana_text :: "nat \<Rightarrow> pystr" where
  "kana_text n = replicate n 12354"

text \<open>
  The titles of the slides and the contents that are strings, one after the other.
  \<open>yaml.dump\<close> writes all of them and about a hundred ASCII characters of keys and
  punctuation for the documents below, so its text is that much longer.
\<close>

definition slide_strings :: "slide \<Rightarrow> pystr" where
  "slide_strings s =
     (case map_of s k_title of Some (YStr t) \<Rightarrow> t | _ \<Rightarrow> []) @
     (case map_of s k_content of Some (YStr c) \<Rightarrow> c | _ \<Rightarrow> [])"

definition example_dump :: "yaml_file \<Rightarrow> pystr" where
  "example_dump d = concat (map (\<lambda>sec. concat (map slide_strings (slides sec))) (sections d))"

text \<open>
  An environment whose analysis request fails for part 1 and answers every other part with
  the part itself, and whose summarising request always has the outcome \<open>r\<close> (\<open>None\<close>: it
  raises). The dump of a document is \<open>example_dump\<close>, and the templates keep only the text
  (for a slide, its title).
\<close>

definition env_reply :: "pystr option \<Rightarrow> env" where
  "env_reply r =
     \<lparr>chat = (\<lambda>part part_num total. if part_num = 1 then None else Some part),
      llm = (\<lambda>n content max_tokens. r),
      safe_load = example_load,
      dump = example_dump,
      py_repr = simple_repr,
      expansion_prompt = (\<lambda>s. s),
      points_prompt = (\<lambda>s. s),
      limit_prompt = (\<lambda>s. s),
      slide_line = (\<lambda>num title content points. title),
      summary_prompt = (\<lambda>s. s)\<rparr>"

text \<open>
  Two parsed parts: the first has a section \<open>Intro\<close> with the slide \<open>A\<close>, the second a
  section \<open>Intro\<close> with the slide \<open>B\<close> and a section \<open>Body\<close> with the slide \<open>C\<close>.
\<close>

definition part_intro_a :: yval where
  "part_intro_a =
     YDict [(k_lecture_name, YStr (ascii ''L'')),
            (k_sections, YList [
               YDict [(k_name, YStr (ascii ''Intro'')),
                      (k_slides, YList [YDict [(k_title, YStr (ascii ''A'')),
                                               (k_content, YList [])]])]])]"

definition part_intro_b_body :: yval where
  "part_intro_b_body =
     YDict [(k_lecture_name, YStr (ascii ''L'')),
            (k_sections, YList [
               YDict [(k_name, YStr (ascii ''Intro'')),
                      (k_slides, YList [YDict [(k_title, YStr (ascii ''B'')),
                                               (k_content, YList [])]])],
               YDict [(k_name, YStr (ascii ''Body'')),
                      (k_slides, YList [YDict [(k_title, YStr (ascii ''C'')),
                                               (k_content, YList [])]])]])]"

definition merged_slide :: "string \<Rightarrow> string \<Rightarrow> slide" where
  "merged_slide num title =
     [(k_number, YStr (ascii num)), (k_title, YStr (ascii title)), (k_content, YList []),
      (k_teaching_points, YStr [])]"

text \<open>
  Slides as \<open>analyze_content\<close> builds them: \<open>slide_T i\<close> has the number \<open>i\<close>, a title of
  1000 characters, no content and no teaching points; \<open>slide_after r i\<close> is that slide once
  every request of the compression was answered with \<open>r\<close>; \<open>placeholder title i\<close> is a slide
  with only a number and a title; \<open>long_slide c\<close> has the string \<open>c\<close> as content.
  \<open>doc_with ss\<close> is the document of one section \<open>S\<close> with the slides \<open>ss\<close>. With 11 slides
  \<open>slide_T\<close> it measures 11000 characters, whatever the contents become.
\<close>

definition slide_T :: "nat \<Rightarrow> slide" where
  "slide_T i = [(k_number, YStr (str_nat i)), (k_title, YStr (long_text 1000)),
                (k_content, YList []), (k_teaching_points, YStr [])]"

definition slide_after :: "pystr \<Rightarrow> nat \<Rightarrow> slide" where
  "slide_after r i = [(k_number, YStr (str_nat i)), (k_title, YStr (long_text 1000)),
                      (k_content, YList [YStr r]), (k_teaching_points, YStr r)]"

definition placeholder :: "pystr \<Rightarrow> nat \<Rightarrow> slide" where
  "placeholder title i = [(k_number, YStr (str_nat i)), (k_title, YStr title),
                          (k_content, YList []), (k_teaching_points, YStr [])]"

definition doc_with :: "slide list \<Rightarrow> yaml_file" where
  "doc_with ss = \<lparr>lecture_name = YStr (ascii ''L''),
                  sections = [\<lparr>number = ascii ''1'', name = YStr (ascii ''S''), slides = ss\<rparr>]\<rparr>"

definition long_slide :: "pystr \<Rightarrow> slide" where
  "long_slide c = [(k_number, YStr (ascii ''1'')), (k_title, YStr (ascii ''T'')),
                   (k_content, YStr c), (k_teaching_points, YStr [])]"

text \<open>
  A slide whose title is 3000 characters U+3042, and that slide once both requests of the
  expansion were answered with \<open>r\<close>.
\<close>

definition kana_slide :: slide where
  "kana_slide = [(k_number, YStr (ascii ''1'')), (k_title, YStr (kana_text 3000)),
                 (k_content, YList []), (k_teaching_points, YStr [])]"

definition kana_slide_expanded :: "pystr \<Rightarrow> slide" where
  "kana_slide_expanded r = [(k_number, YStr (ascii ''1'')), (k_title, YStr (kana_text 3000)),
                            (k_content, YList [YStr r]), (k_teaching_points, YList [YStr r])]"

section \<open>The chunker keeps the paragraphs\<close>

lemma py_split_not_Nil [simp]: "py_split sep s \<noteq> []"
  by (induction sep s rule: py_split.induct) (auto simp: py_split.simps(2) split: list.splits)


lemma prefix_NLNL: "prefix NLNL (c # cs) \<longleftrightarrow> c = NL \<and> (\<exists>cs'. cs = NL # cs')"
  by (auto simp: NLNL_def prefix_def)

lemma py_split_NLNL_single [simp]: "py_split NLNL [c] = [[c]]"
  by (simp add: py_split.simps(2) prefix_NLNL) 

lemma py_split_NLNL_sep [simp]: "py_split NLNL (NL # NL # cs) = [] # py_split NLNL cs"
  by (simp add: py_split.simps(2) prefix_NLNL) (simp add: NLNL_def)

lemma py_split_NLNL_other:
  "\<not> (c1 = NL \<and> c2 = NL) \<Longrightarrow>
   py_split NLNL (c1 # c2 # cs) = (case py_split NLNL (c2 # cs) of [] \<Rightarrow> [[c1]] | p # ps \<Rightarrow> (c1 # p) # ps)"
  by (subst py_split.simps) (auto simp add: prefix_NLNL)

lemma NLNL_append [simp]: "NLNL @ s = NL # NL # s"
  by (simp add: NLNL_def)

lemma split_last_piece: "nonn p \<Longrightarrow> py_split NLNL p = [p]"
  by (induction p rule: nonn.induct) (auto simp: py_split_NLNL_other) 

lemma split_first_piece:
  "nonn p \<Longrightarrow> \<not> ends_nl p \<Longrightarrow> py_split NLNL (p @ NL # NL # rest) = p # py_split NLNL rest"
proof (induction p rule: nonn.induct)
  case 1
  then show ?case by simp
next
  case (2 c)
  then show ?case by (simp add: ends_nl_def py_split_NLNL_other)
next
  case (3 c1 c2 cs)
  then show ?case by (simp add: ends_nl_def py_split_NLNL_other)
qed

lemma split_join_roundtrip:
  "ps \<noteq> [] \<Longrightarrow> seps_ok ps \<Longrightarrow> \<forall>p\<in>set ps. nonn p \<Longrightarrow> py_split NLNL (py_join NLNL ps) = ps"
proof (induction NLNL ps rule: py_join.induct)
  case 1
  then show ?case by simp
next
  case (2 x)
  then show ?case by (simp add: split_last_piece)
next
  case (3 x y ys)
  then show ?case by (simp add: split_first_piece)
qed

lemma split_prefix:
  "py_split NLNL s = p # ps \<Longrightarrow> prefix p s \<and> (ps \<noteq> [] \<longrightarrow> prefix (p @ [NL, NL]) s)"
proof (induction NLNL s arbitrary: p ps rule: py_split.induct)
  case 1
  then show ?case by simp
next
  case (2 c cs)
  show ?case
  proof (cases "prefix NLNL (c # cs)")
    case True
    with 2(3) have "p = []" by (auto simp: py_split.simps(2) NLNL_def)
    with True show ?thesis by (auto simp: prefix_NLNL)
  next
    case False
    obtain q qs where q: "py_split NLNL cs = q # qs"
      by (cases "py_split NLNL cs") auto
    with False 2(3) have pq: "p = c # q" "ps = qs" by (auto simp: py_split.simps(2))
    from 2(2)[OF _ q] False have "prefix q cs \<and> (qs \<noteq> [] \<longrightarrow> prefix (q @ [NL, NL]) cs)" by simp
    with pq show ?thesis by simp
  qed
qed


lemma split_pieces_ok:
  "(\<forall>p\<in>set (py_split NLNL s). nonn p) \<and> seps_ok (py_split NLNL s)"
proof (induction NLNL s rule: py_split.induct)
  case 1
  then show ?case by simp
next
  case (2 c cs)
  show ?case
  proof (cases "prefix NLNL (c # cs)")
    case True
    then obtain cs' where cs: "c = NL" "cs = NL # cs'" by (auto simp: prefix_NLNL)
    from 2(1) True have "(\<forall>p\<in>set (py_split NLNL cs'). nonn p) \<and> seps_ok (py_split NLNL cs')"
      by (simp add: cs NLNL_def)
    moreover have "seps_ok ([] # py_split NLNL cs') = seps_ok (py_split NLNL cs')"
      by (cases "py_split NLNL cs'") (auto simp: ends_nl_def)
    ultimately show ?thesis by (simp add: cs)
  next
    case False
    obtain q qs where q: "py_split NLNL cs = q # qs"
      by (cases "py_split NLNL cs") auto
    from False have r: "py_split NLNL (c # cs) = (c # q) # qs"
      by (simp add: py_split.simps(2) q)
    from 2(2) False q have ih: "nonn q" "\<forall>p\<in>set qs. nonn p" "seps_ok (q # qs)" by auto
    from split_prefix[OF q] have pre: "prefix q cs" "qs \<noteq> [] \<longrightarrow> prefix (q @ [NL, NL]) cs" by auto
    have "nonn (c # q)"
      using ih(1) pre(1) False by (cases q) (auto simp: prefix_NLNL prefix_def)
    moreover have "seps_ok ((c # q) # qs)"
    proof (cases qs)
      case Nil
      then show ?thesis by simp
    next
      case (Cons a as)
      with ih(3) have nq: "\<not> ends_nl q" "seps_ok qs" by auto
      have "\<not> ends_nl (c # q)"
      proof (cases q)
        case Nil
        with pre(2) Cons have "prefix [NL, NL] cs" by simp
        with False show ?thesis by (auto simp: Nil ends_nl_def prefix_NLNL prefix_def)
      next
        case (Cons d ds)
        with nq(1) show ?thesis by (simp add: ends_nl_def)
      qed
      with nq Cons show ?thesis by simp
    qed
    ultimately show ?thesis using ih(2) r by simp
  qed
qed

lemma seps_ok_filter: "seps_ok ps \<Longrightarrow> seps_ok (filter P ps)"
proof (induction ps rule: seps_ok.induct)
  case (3 p q ps)
  then have "seps_ok (filter P (q # ps))" by simp
  moreover have "\<not> ends_nl p" using 3 by simp
  ultimately show ?case by (cases "filter P (q # ps)") auto
qed auto

lemma paragraphs_ok: "(\<forall>p\<in>set (paragraphs_of s). nonn p) \<and> seps_ok (paragraphs_of s)"
  using split_pieces_ok[of s] by (auto simp: paragraphs_of_def seps_ok_filter)

lemma dropWhile_keeps: "(\<exists>c\<in>set (dropWhile P s). \<not> P c) \<longleftrightarrow> (\<exists>c\<in>set s. \<not> P c)"
  by (induction s) auto

lemma strip_nonempty_iff: "py_strip s \<noteq> [] \<longleftrightarrow> (\<exists>c\<in>set s. \<not> isspace c)"
proof -
  have "py_strip s \<noteq> [] \<longleftrightarrow> (\<exists>c\<in>set (rev (dropWhile isspace s)). \<not> isspace c)"
    unfolding py_strip_def by (simp only: rev_is_Nil_conv dropWhile_eq_Nil_conv) blast
  also have "\<dots> \<longleftrightarrow> (\<exists>c\<in>set s. \<not> isspace c)"
    by (simp add: dropWhile_keeps del: dropWhile_eq_Nil_conv)
  finally show ?thesis .
qed

lemma paragraphs_nonblank: "p \<in> set (paragraphs_of s) \<Longrightarrow> py_strip p \<noteq> []"
  by (simp add: paragraphs_of_def)

lemma paragraphs_join:
  assumes "ps = paragraphs_of s"
  shows "paragraphs_of (py_join NLNL ps) = ps"
proof (cases "ps = []")
  case True
  then show ?thesis by (simp add: paragraphs_of_def py_strip_def)
next
  case False
  have "py_split NLNL (py_join NLNL ps) = ps"
    using False paragraphs_ok[of s] assms by (intro split_join_roundtrip) auto
  then show ?thesis using assms by (simp add: paragraphs_of_def)
qed


lemma join_append:
  "xs \<noteq> [] \<Longrightarrow> ys \<noteq> [] \<Longrightarrow> py_join sep (xs @ ys) = py_join sep xs @ sep @ py_join sep ys"
proof (induction sep xs rule: py_join.induct)
  case (2 sep x)
  then show ?case by (cases ys) auto
qed auto

lemma join_concat:
  "\<forall>g\<in>set gs. g \<noteq> [] \<Longrightarrow> py_join sep (map (py_join sep) gs) = py_join sep (concat gs)"
proof (induction gs)
  case Nil
  then show ?case by simp
next
  case (Cons g gs)
  show ?case
  proof (cases gs)
    case Nil
    then show ?thesis by simp
  next
    case (Cons h hs)
    with Cons.prems have ne: "g \<noteq> []" "concat gs \<noteq> []" by auto
    from Cons.IH Cons.prems have "py_join sep (map (py_join sep) gs) = py_join sep (concat gs)" by simp
    with Cons ne show ?thesis by (simp add: join_append)
  qed
qed

lemma concat_slices:
  "0 < k \<Longrightarrow> concat (map (\<lambda>j. py_slice (j * k) (j * k + k) ps) [0..<m]) = take (m * k) ps"
proof (induction m)
  case 0
  then show ?case by simp
next
  case (Suc m)
  have "take (m * k) ps @ take k (drop (m * k) ps) = take (m * k + k) ps"
    by (simp add: take_add)
  with Suc show ?case by (simp add: py_slice_def add.commute)
qed

lemma join_nonblank:
  assumes "g \<noteq> []" and "\<forall>p\<in>set g. py_strip p \<noteq> []"
  shows "py_strip (py_join sep g) \<noteq> []"
proof -
  obtain p g' where g: "g = p # g'" using assms(1) by (cases g) auto
  with assms(2) obtain c where c: "c \<in> set p" "\<not> isspace c"
    by (auto simp: strip_nonempty_iff)
  have "set p \<subseteq> set (py_join sep g)" unfolding g by (cases g') auto
  with c show ?thesis by (auto simp: strip_nonempty_iff)
qed

lemma ceil_div_pos: "0 < a \<Longrightarrow> 0 < b \<Longrightarrow> 0 < ceil_div a b"
  by (simp add: ceil_div_def div_neg_pos_less0)

lemma range_covers:
  fixes n k :: nat
  assumes "0 < k"
  shows "n \<le> (n + k - 1) div k * k"
proof -
  have "n + k - 1 = (n + k - 1) div k * k + (n + k - 1) mod k" by simp
  moreover have "(n + k - 1) mod k < k" using assms by simp
  ultimately show ?thesis by linarith
qed

lemma range_inside:
  fixes n k j :: nat
  assumes "0 < k" "0 < n" "j < (n + k - 1) div k"
  shows "j * k < n"
proof -
  have "Suc j \<le> (n + k - 1) div k" using assms(3) by simp
  then have "Suc j * k \<le> (n + k - 1) div k * k" by (rule mult_le_mono1)
  also have "\<dots> \<le> n + k - 1" by simp
  finally show ?thesis using assms(1,2) by simp
qed

text \<open>
  C3, for \<open>num_parts \<ge> 1\<close>: \<open>split_text\<close> returns chunks, and joining them with blank lines
  gives the text made of the non-blank paragraphs of the input joined with blank lines,
  whose paragraphs are exactly the paragraphs of the input, in their order.
\<close>

theorem split_text_reconstructs:
  assumes "1 \<le> num_parts"
  shows "\<exists>chunks. split_text text num_parts = Inr chunks \<and>
           py_join NLNL chunks = py_join NLNL (paragraphs_of text) \<and>
           paragraphs_of (py_join NLNL chunks) = paragraphs_of text"
proof (cases "int (length (paragraphs_of text)) \<le> num_parts")
  case True
  then show ?thesis by (simp add: split_text_def Let_def paragraphs_join)
next
  case False
  define ps where "ps = paragraphs_of text"
  define n where "n = length ps"
  define kk where "kk = ceil_div (int n) num_parts"
  define k where "k = nat kk"
  define m where "m = (n + k - 1) div k"
  define gs where "gs = map (\<lambda>j. py_slice (j * k) (j * k + k) ps) [0..<m]"
  from False assms have npos: "0 < n" by (cases "paragraphs_of text") (auto simp: ps_def n_def)
  with assms have kkpos: "0 < kk" unfolding kk_def by (intro ceil_div_pos) auto
  then have kpos: "0 < k" by (simp add: k_def)
  have rng: "py_range0 n kk = Inr (map (\<lambda>j. j * k) [0..<m])"
    using kkpos by (simp add: py_range0_def k_def m_def)
  have ne: "\<forall>g\<in>set gs. g \<noteq> []"
  proof
    fix g assume "g \<in> set gs"
    then obtain j where j: "j < m" "g = py_slice (j * k) (j * k + k) ps" by (auto simp: gs_def)
    from j(1) have "j * k < n" unfolding m_def by (rule range_inside[OF kpos npos])
    with kpos show "g \<noteq> []" by (simp add: j(2) py_slice_def n_def)
  qed
  have nb: "\<forall>g\<in>set gs. \<forall>p\<in>set g. py_strip p \<noteq> []"
    by (auto simp: gs_def py_slice_def ps_def dest!: in_set_takeD in_set_dropD paragraphs_nonblank)
  have keep: "filter (\<lambda>part. py_strip part \<noteq> []) (map (py_join NLNL) gs) = map (py_join NLNL) gs"
    using ne nb by (auto simp: filter_id_conv join_nonblank)
  have res: "split_text text num_parts = Inr (map (py_join NLNL) gs)"
    using False assms rng keep
    by (simp add: split_text_def Let_def ps_def[symmetric] n_def[symmetric] kk_def[symmetric]
        k_def[symmetric] gs_def comp_def)
  have "concat gs = take (m * k) ps" unfolding gs_def by (rule concat_slices[OF kpos])
  also have "\<dots> = ps" using range_covers[OF kpos, of n] by (simp add: m_def n_def)
  finally have cat: "concat gs = ps" .
  have j: "py_join NLNL (map (py_join NLNL) gs) = py_join NLNL ps"
    using join_concat[OF ne] cat by simp
  show ?thesis using res j paragraphs_join[of ps "text"] by (simp add: ps_def)
qed

theorem split_text_reconstructs_witness:
  "(1::int) \<le> 2 \<and>
   split_text [97, 10, 10, 98, 10, 10, 99] 2 = Inr [[97, 10, 10, 98], [99]] \<and>
   paragraphs_of (py_join NLNL [[97, 10, 10, 98], [99]]) =
     paragraphs_of [97, 10, 10, 98, 10, 10, 99]"
proof -
  have ev: "split_text [97, 10, 10, 98, 10, 10, 99] 2 = Inr [[97, 10, 10, 98], [99]]"
    by (simp add: split_text_def paragraphs_of_def py_split.simps(2) NLNL_def NL_def py_strip_def
        isspace_def Let_def ceil_div_def py_range0_def py_slice_def)
  have "(1::int) \<le> 2" by simp
  from split_text_reconstructs [OF this, of "[97, 10, 10, 98, 10, 10, 99]"] ev
  show ?thesis by auto
qed

text \<open>
  C3 as stated, for every \<open>num_parts\<close>, fails: on the text \<open>'a'\<close> with \<open>num_parts = -1\<close> the
  step of the range is \<open>ceil(1 / -1) = -1\<close>, the loop does not run, and no chunk is returned.
\<close>

theorem split_text_negative_parts_counterexample:
  "split_text [97] (- 1) = Inr [] \<and> paragraphs_of (py_join NLNL []) \<noteq> paragraphs_of [97]"
  by (simp add: split_text_def paragraphs_of_def py_strip_def isspace_def Let_def ceil_div_def
      py_range0_def)

section \<open>Evaluating the merge\<close>

lemmas merge_eval = merge_parts_def merge_part_def merge_section_def dict_get_def py_iter_def
  truthy_def hashable_def slide_data_def subscript_def join_iter_def str_join_def append_slide_def
  k_lecture_name_def k_sections_def k_name_def k_slides_def k_number_def k_title_def k_content_def
  k_teaching_points_def ascii_def str_nat.simps Let_def

section \<open>Merging: the names and their order\<close>

lemma foldM_preserves:
  assumes "\<And>s x s'. P s \<Longrightarrow> f s x = Inr s' \<Longrightarrow> P s'"
  shows "P s \<Longrightarrow> foldM f s xs = Inr s' \<Longrightarrow> P s'"
proof (induction xs arbitrary: s)
  case Nil
  then show ?case by simp
next
  case (Cons x xs)
  then show ?case using assms by (auto split: sum.splits)
qed

lemma update_keys_new: "map_of d k = None \<Longrightarrow> map fst (AList.update k v d) = map fst d @ [k]"
  by (induction d) (auto split: if_splits)

lemma update_keys_old: "map_of d k = Some x \<Longrightarrow> map fst (AList.update k v d) = map fst d"
  by (induction d) (auto split: if_splits)

lemma append_slide_keys: "append_slide nm d s = Inr d' \<Longrightarrow> map fst d' = map fst d"
  by (auto simp: append_slide_def update_keys_old split: option.splits)

lemma slide_loop_keys:
  "foldM (\<lambda>d (slide_num, slide).
            case slide_data slide_num slide of Inl e \<Rightarrow> Inl e | Inr sd \<Rightarrow> append_slide nm d sd)
     d items = Inr d' \<Longrightarrow> map fst d' = map fst d"
proof (induction items arbitrary: d)
  case Nil
  then show ?case by simp
next
  case (Cons a items)
  then show ?case by (cases a) (auto split: sum.splits dest!: append_slide_keys)
qed

lemma merge_section_inv:
  assumes "merge_inv st" "merge_section st sec = Inr st'"
  shows "merge_inv st'"
proof -
  obtain d order where st: "st = (d, order)" by (cases st)
  show ?thesis
    using assms unfolding st merge_section_def merge_inv_def
    by (auto simp: Let_def update_keys_new map_of_eq_None_iff
        split: sum.splits if_splits dest!: slide_loop_keys)
qed

lemma merge_part_inv: "merge_inv st \<Longrightarrow> merge_part st part = Inr st' \<Longrightarrow> merge_inv st'"
  unfolding merge_part_def
  by (auto split: sum.splits elim: foldM_preserves[where P = merge_inv, rotated 1] intro: merge_section_inv)

lemma merge_parts_fold:
  "merge_parts yaml_parts = Inr (ln, d, section_order) \<Longrightarrow>
   foldM merge_part ([], []) yaml_parts = Inr (d, section_order)"
  unfolding merge_parts_def
  by (cases yaml_parts) (auto split: sum.splits if_splits simp del: foldM.simps)

lemma merge_parts_inv:
  assumes "merge_parts yaml_parts = Inr (ln, d, section_order)"
  shows "merge_inv (d, section_order)"
proof -
  show ?thesis
  proof (rule foldM_preserves[where P = merge_inv and f = merge_part])
    show "merge_inv ([], [])" by (simp add: merge_inv_def)
    show "foldM merge_part ([], []) yaml_parts = Inr (d, section_order)"
      by (rule merge_parts_fold[OF assms])
  qed (rule merge_part_inv)
qed

lemma merge_section_order:
  assumes "merge_inv st" "merge_section st sec = Inr st'"
  shows "snd st' = fold register (section_names sec) (snd st)"
proof -
  have k: "map_of (fst st) nm = None \<longleftrightarrow> nm \<notin> set (snd st)" for nm
  proof -
    from assms(1) have "set (snd st) = fst ` set (fst st)"
      by (simp add: merge_inv_def set_map[symmetric] del: set_map)
    then show ?thesis by (simp add: map_of_eq_None_iff)
  qed
  show ?thesis
    using assms(2)
    by (auto simp: merge_section_def section_names_def register_def Let_def k
        split: sum.splits if_splits)
qed

lemma merge_sections_order:
  "merge_inv st \<Longrightarrow> foldM merge_section st items = Inr st' \<Longrightarrow>
   snd st' = fold register (concat (map section_names items)) (snd st)"
proof (induction items arbitrary: st)
  case Nil
  then show ?case by simp
next
  case (Cons sec items)
  from Cons.prems(2) obtain st1 where
    s1: "merge_section st sec = Inr st1" and s2: "foldM merge_section st1 items = Inr st'"
    by (auto split: sum.splits)
  from merge_section_inv[OF Cons.prems(1) s1] have "merge_inv st1" .
  from Cons.IH[OF this s2] merge_section_order[OF Cons.prems(1) s1] show ?case by simp
qed

lemma merge_part_order:
  "merge_inv st \<Longrightarrow> merge_part st part = Inr st' \<Longrightarrow>
   snd st' = fold register (part_names part) (snd st)"
  by (auto simp: merge_part_def part_names_def split: sum.splits dest: merge_sections_order)

lemma merge_fold_order:
  "merge_inv st \<Longrightarrow> foldM merge_part st yaml_parts = Inr st' \<Longrightarrow>
   snd st' = fold register (concat (map part_names yaml_parts)) (snd st)"
proof (induction yaml_parts arbitrary: st)
  case Nil
  then show ?case by simp
next
  case (Cons part yaml_parts)
  from Cons.prems(2) obtain st1 where
    s1: "merge_part st part = Inr st1" and s2: "foldM merge_part st1 yaml_parts = Inr st'"
    by (auto split: sum.splits)
  from merge_part_inv[OF Cons.prems(1) s1] have "merge_inv st1" .
  from Cons.IH[OF this s2] merge_part_order[OF Cons.prems(1) s1] show ?case by simp
qed

lemma merge_order_first_seen:
  assumes "merge_parts yaml_parts = Inr (ln, d, section_order)"
  shows "section_order = first_seen (concat (map part_names yaml_parts))"
proof -
  have "merge_inv ([], [])" by (simp add: merge_inv_def)
  from merge_fold_order[OF this merge_parts_fold[OF assms]] show ?thesis
    by (simp add: first_seen_def)
qed

lemma set_fold_register: "set (fold register names order) = set order \<union> set names"
  by (induction names arbitrary: order) (auto simp: register_def)

lemma first_seen_remdups: "first_seen names = rev (remdups (rev names))"
proof (induction names rule: rev_induct)
  case Nil
  then show ?case by (simp add: first_seen_def)
next
  case (snoc nm names)
  have "first_seen (names @ [nm]) = register nm (first_seen names)"
    by (simp add: first_seen_def)
  also have "\<dots> = rev (remdups (rev (names @ [nm])))"
    using snoc set_fold_register[of names "[]"]
    by (auto simp: register_def first_seen_def)
  finally show ?case .
qed

section \<open>Merging: the numbering of the slides\<close>

text \<open>
  C1 asks for sections in first-seen order and, in every merged section, slide numbers
  1, 2, 3, ... continuing over the parts. The order holds (\<open>merge_order_first_seen\<close>); the
  numbers do not continue: the number of a slide is its position in the section of its own
  part (line 397), so the section \<open>Intro\<close> merged from two parts holds two slides numbered
  \<open>'1'\<close>.
\<close>

theorem merge_restarts_numbering:
  "merge_parts [part_intro_a, part_intro_b_body] =
     Inr (YStr (ascii ''L''),
          [(YStr (ascii ''Intro''), [merged_slide ''1'' ''A'', merged_slide ''1'' ''B'']),
           (YStr (ascii ''Body''), [merged_slide ''1'' ''C''])],
          [YStr (ascii ''Intro''), YStr (ascii ''Body'')])"
  by (simp add: part_intro_a_def part_intro_b_body_def merged_slide_def merge_eval)

section \<open>Splitting into files covers the sections\<close>

lemma mapM_total: "(\<And>x. x \<in> set xs \<Longrightarrow> f x = Inr (g x)) \<Longrightarrow> mapM f xs = Inr (map g xs)"
  by (induction xs) auto

lemma file_ranges_cover:
  fixes section_order :: "'a list"
  assumes "0 < k"
  shows "concat (map (\<lambda>i. py_slice (i * k) (if i < 7 then (i + 1) * k else length section_order)
                           section_order) [0..<8]) = section_order"
proof -
  have u: "[0..<8] = [0..<7] @ [7::nat]" by (simp add: upt_rec)
  let ?f = "\<lambda>i. py_slice (i * k) (if i < 7 then (i + 1) * k else length section_order)
               section_order"
  have "concat (map ?f [0..<7])
        = concat (map (\<lambda>j. py_slice (j * k) (j * k + k) section_order) [0..<7])"
    by (rule arg_cong[where f = concat], rule map_cong) (auto simp: add.commute)
  also have "\<dots> = take (7 * k) section_order"
    by (rule concat_slices[OF assms])
  finally have "concat (map ?f [0..<7]) = take (7 * k) section_order" .
  moreover have "?f 7 = drop (7 * k) section_order"
    by (simp add: py_slice_def)
  ultimately have "concat (map ?f ([0..<7] @ [7])) = section_order"
    by (simp del: upt_Suc)
  then show ?thesis by (simp only: u)
qed

lemma enumerate_snd: "p \<in> set (enumerate n xs) \<Longrightarrow> snd p \<in> set xs"
  by (metis in_set_zipE enumerate_eq_zip prod.collapse)

lemma file_sections_total:
  assumes "merge_inv (d, section_order)"
  shows "file_sections d section_order i =
           Inr (map (section_of d)
                  (enumerate 1 (py_slice (i * sections_per_file section_order)
                     (if i < 7 then (i + 1) * sections_per_file section_order
                      else length section_order) section_order)))"
proof -
  have keys: "\<exists>ss. map_of d nm = Some ss" if "nm \<in> set section_order" for nm
  proof -
    from that assms have "nm \<in> fst ` set d" by (auto simp: merge_inv_def)
    then have "map_of d nm \<noteq> None" by (simp add: map_of_eq_None_iff)
    then show ?thesis by auto
  qed
  show ?thesis
    unfolding file_sections_def Let_def
  proof (rule mapM_total)
    fix p
    assume "p \<in> set (enumerate 1 (py_slice (i * sections_per_file section_order)
                     (if i < 7 then (i + 1) * sections_per_file section_order
                      else length section_order) section_order))"
    then have "snd p \<in> set section_order"
      by (auto simp: py_slice_def dest!: enumerate_snd in_set_takeD in_set_dropD)
    from keys[OF this] obtain ss where "map_of d (snd p) = Some ss" by blast
    then show "(case p of (section_num, section_name) \<Rightarrow>
                  (case map_of d section_name of
                     None \<Rightarrow> Inl KeyError
                   | Some ss \<Rightarrow>
                       Inr \<lparr>number = str_nat section_num, name = section_name, slides = ss\<rparr>))
               = Inr (section_of d p)"
      by (cases p) (simp add: section_of_def)
  qed
qed


lemma concat_map_filter_nonempty:
  "concat (map (map g) (filter (\<lambda>xs. xs \<noteq> []) xss)) = map g (concat xss)"
  by (induction xss) auto

lemma pairs_of_keys:
  assumes "distinct (map fst d)"
  shows "map (\<lambda>nm. (nm, the (map_of d nm))) (map fst d) = d"
proof -
  have "map (\<lambda>p. (fst p, the (map_of d (fst p)))) d = map (\<lambda>p. p) d"
    by (rule map_cong) (auto simp: map_of_is_SomeI[OF assms])
  then show ?thesis by (simp add: comp_def)
qed

text \<open>
  C2: for the sections merged from any parts, the files are built without error, and
  their sections, file after file, are the merged sections in \<open>section_order\<close>: the same
  names with the same slides, each name once. No file is empty and every file carries the
  lecture name.
\<close>

theorem partition_covers:
  assumes "merge_parts yaml_parts = Inr (ln, d, section_order)"
  shows "\<exists>files. yaml_files ln d section_order = Inr files \<and>
           concat (map (\<lambda>f. map name (sections f)) files) = section_order \<and>
           concat (map (\<lambda>f. map (\<lambda>s. (name s, slides s)) (sections f)) files) = d \<and>
           distinct section_order \<and>
           (\<forall>f\<in>set files. lecture_name f = ln \<and> sections f \<noteq> [])"
proof -
  have inv: "merge_inv (d, section_order)" by (rule merge_parts_inv[OF assms])
  then have keys: "map fst d = section_order" and dist: "distinct section_order"
    by (simp_all add: merge_inv_def)
  define k where "k = sections_per_file section_order"
  have kpos: "0 < k" by (simp add: k_def sections_per_file_def)
  define rng where "rng = (\<lambda>i. py_slice (i * k) (if i < 7 then (i + 1) * k
                                   else length section_order) section_order)"
  define fss where "fss = map (\<lambda>i. map (section_of d) (enumerate 1 (rng i))) [0..<8]"
  define files where
    "files = map (\<lambda>fs. \<lparr>lecture_name = ln, sections = fs\<rparr>) (filter (\<lambda>fs. fs \<noteq> []) fss)"
  have "mapM (file_sections d section_order) [0..<8] = Inr fss"
    unfolding fss_def by (rule mapM_total) (simp add: file_sections_total[OF inv] rng_def k_def)
  then have res: "yaml_files ln d section_order = Inr files"
    by (simp add: yaml_files_def files_def)
  have cover: "concat (map rng [0..<8]) = section_order"
    unfolding rng_def by (rule file_ranges_cover[OF kpos])
  have sec: "map g (map (section_of d) (enumerate 1 xs)) = map (\<lambda>nm. g (section_of d (0, nm))) xs"
    if "\<And>i nm. g (section_of d (i, nm)) = g (section_of d (0, nm))" for g :: "section_data \<Rightarrow> 'b" and xs
  proof -
    have "map g (map (section_of d) (enumerate 1 xs))
          = map (\<lambda>p. g (section_of d (0, snd p))) (enumerate 1 xs)"
      using that by (auto simp: comp_def)
    also have "\<dots> = map (\<lambda>nm. g (section_of d (0, nm))) (map snd (enumerate 1 xs))"
      by (simp only: map_map comp_def)
    finally show ?thesis by simp
  qed
  have part: "concat (map (\<lambda>f. map g (sections f)) files)
              = map (\<lambda>nm. g (section_of d (0, nm))) section_order"
    if "\<And>i nm. g (section_of d (i, nm)) = g (section_of d (0, nm))" for g :: "section_data \<Rightarrow> 'b"
  proof -
    have "concat (map (\<lambda>f. map g (sections f)) files)
          = concat (map (map g) (filter (\<lambda>fs. fs \<noteq> []) fss))"
      by (simp add: files_def comp_def)
    also have "\<dots> = map g (concat fss)" by (rule concat_map_filter_nonempty)
    also have "\<dots> = concat (map (\<lambda>i. map g (map (section_of d) (enumerate 1 (rng i)))) [0..<8])"
      by (simp only: fss_def map_concat map_map comp_def)
    also have "\<dots> = concat (map (\<lambda>i. map (\<lambda>nm. g (section_of d (0, nm))) (rng i)) [0..<8])"
      using sec[of g, OF that] by simp
    also have "\<dots> = map (\<lambda>nm. g (section_of d (0, nm))) (concat (map rng [0..<8]))"
      by (simp only: map_concat map_map comp_def)
    finally show ?thesis by (simp only: cover)
  qed
  have a: "concat (map (\<lambda>f. map name (sections f)) files) = section_order"
    using part[of name] by (simp add: section_of_def)
  have "concat (map (\<lambda>f. map (\<lambda>s. (name s, slides s)) (sections f)) files)
        = map (\<lambda>nm. (nm, the (map_of d nm))) section_order"
    using part[of "\<lambda>s. (name s, slides s)"] by (simp add: section_of_def)
  also have "\<dots> = d"
    using pairs_of_keys[of d] keys dist by simp
  finally have b: "concat (map (\<lambda>f. map (\<lambda>s. (name s, slides s)) (sections f)) files) = d" .
  have c: "\<forall>f\<in>set files. lecture_name f = ln \<and> sections f \<noteq> []"
    by (auto simp: files_def)
  from res a b dist c show ?thesis by blast
qed

theorem partition_covers_witness:
  "merge_parts [part_intro_a, part_intro_b_body] =
     Inr (YStr (ascii ''L''),
          [(YStr (ascii ''Intro''), [merged_slide ''1'' ''A'', merged_slide ''1'' ''B'']),
           (YStr (ascii ''Body''), [merged_slide ''1'' ''C''])],
          [YStr (ascii ''Intro''), YStr (ascii ''Body'')]) \<and>
   yaml_files (YStr (ascii ''L''))
     [(YStr (ascii ''Intro''), [merged_slide ''1'' ''A'', merged_slide ''1'' ''B'']),
      (YStr (ascii ''Body''), [merged_slide ''1'' ''C''])]
     [YStr (ascii ''Intro''), YStr (ascii ''Body'')] =
     Inr [\<lparr>lecture_name = YStr (ascii ''L''),
            sections = [\<lparr>number = ascii ''1'', name = YStr (ascii ''Intro''),
                          slides = [merged_slide ''1'' ''A'', merged_slide ''1'' ''B'']\<rparr>]\<rparr>,
          \<lparr>lecture_name = YStr (ascii ''L''),
            sections = [\<lparr>number = ascii ''1'', name = YStr (ascii ''Body''),
                          slides = [merged_slide ''1'' ''C'']\<rparr>]\<rparr>]"
proof -
  have m: "merge_parts [part_intro_a, part_intro_b_body] =
     Inr (YStr (ascii ''L''),
          [(YStr (ascii ''Intro''), [merged_slide ''1'' ''A'', merged_slide ''1'' ''B'']),
           (YStr (ascii ''Body''), [merged_slide ''1'' ''C''])],
          [YStr (ascii ''Intro''), YStr (ascii ''Body'')])"
    by (simp add: part_intro_a_def part_intro_b_body_def merged_slide_def merge_eval)
  have y: "yaml_files (YStr (ascii ''L''))
     [(YStr (ascii ''Intro''), [merged_slide ''1'' ''A'', merged_slide ''1'' ''B'']),
      (YStr (ascii ''Body''), [merged_slide ''1'' ''C''])]
     [YStr (ascii ''Intro''), YStr (ascii ''Body'')] =
     Inr [\<lparr>lecture_name = YStr (ascii ''L''),
            sections = [\<lparr>number = ascii ''1'', name = YStr (ascii ''Intro''),
                          slides = [merged_slide ''1'' ''A'', merged_slide ''1'' ''B'']\<rparr>]\<rparr>,
          \<lparr>lecture_name = YStr (ascii ''L''),
            sections = [\<lparr>number = ascii ''1'', name = YStr (ascii ''Body''),
                          slides = [merged_slide ''1'' ''C'']\<rparr>]\<rparr>]"
    by (simp add: yaml_files_def file_sections_def sections_per_file_def py_slice_def upt_rec
        ascii_def str_nat.simps Let_def)
  from partition_covers[OF m] m y show ?thesis by simp
qed

section \<open>A section without a name is skipped\<close>

lemma foldM_append:
  "foldM f s (xs @ ys) = (case foldM f s xs of Inl e \<Rightarrow> Inl e | Inr s' \<Rightarrow> foldM f s' ys)"
  by (induction xs arbitrary: s) (auto split: sum.splits)

lemma merge_section_nameless:
  assumes "map_of sec k_name = None \<or> (\<exists>v. map_of sec k_name = Some v \<and> \<not> truthy v)"
  shows "merge_section st (YDict sec) = Inr st"
  using assms by (auto simp: merge_section_def dict_get_def truthy_def)

lemma merge_sections_nameless:
  assumes "map_of sec k_name = None \<or> (\<exists>v. map_of sec k_name = Some v \<and> \<not> truthy v)"
  shows "foldM merge_section st (before @ YDict sec # after) = foldM merge_section st (before @ after)"
  by (simp add: foldM_append merge_section_nameless[OF assms] split: sum.splits)

lemma merge_part_nameless:
  assumes "map_of sec k_name = None \<or> (\<exists>v. map_of sec k_name = Some v \<and> \<not> truthy v)"
  shows "merge_part st (YDict (AList.update k_sections (YList (before @ YDict sec # after)) p))
       = merge_part st (YDict (AList.update k_sections (YList (before @ after)) p))"
  by (simp add: merge_part_def dict_get_def update_conv' py_iter_def merge_sections_nameless[OF assms])

lemma lecture_name_update_sections:
  "dict_get (YDict (AList.update k_sections v p)) k_lecture_name YNone
   = dict_get (YDict p) k_lecture_name YNone"
  by (simp add: dict_get_def update_conv' k_sections_def k_lecture_name_def ascii_def)

text \<open>
  C10: a section whose \<open>name\<close> is absent, \<open>None\<close> or empty leaves \<open>sections_dict\<close> and
  \<open>section_order\<close> as they are and raises nothing, whatever its slides are; the merge of
  the parts gives the same result, or the same error, as without that section.
\<close>

theorem nameless_section_skipped:
  assumes "map_of sec k_name = None \<or> (\<exists>v. map_of sec k_name = Some v \<and> \<not> truthy v)"
  shows "merge_section st (YDict sec) = Inr st \<and>
         merge_parts (ps1 @ YDict (AList.update k_sections (YList (before @ YDict sec # after)) p) # ps2)
       = merge_parts (ps1 @ YDict (AList.update k_sections (YList (before @ after)) p) # ps2)"
proof -
  let ?a = "YDict (AList.update k_sections (YList (before @ YDict sec # after)) p)"
  let ?b = "YDict (AList.update k_sections (YList (before @ after)) p)"
  have fold: "foldM merge_part s (ps1 @ ?a # ps2) = foldM merge_part s (ps1 @ ?b # ps2)" for s
    by (simp add: foldM_append merge_part_nameless[OF assms] split: sum.splits)
  have "merge_parts (ps1 @ ?a # ps2) = merge_parts (ps1 @ ?b # ps2)"
    unfolding merge_parts_def fold
    by (cases ps1) (simp_all add: lecture_name_update_sections)
  with merge_section_nameless[OF assms] show ?thesis by simp
qed

theorem nameless_section_skipped_witness:
  "merge_section ([], []) (YDict [(k_name, YStr []), (k_slides, YInt 3)]) = Inr ([], []) \<and>
   merge_parts [YDict (AList.update k_sections
                   (YList [YDict [(k_name, YStr []), (k_slides, YInt 3)]])
                   [(k_lecture_name, YStr (ascii ''L''))])]
     = Inr (YStr (ascii ''L''), [], [])"
proof -
  have h: "map_of [(k_name, YStr []), (k_slides, YInt 3)] k_name = None \<or>
           (\<exists>v. map_of [(k_name, YStr []), (k_slides, YInt 3)] k_name = Some v \<and> \<not> truthy v)"
    by (simp add: truthy_def)
  have e: "merge_parts [YDict (AList.update k_sections (YList []) [(k_lecture_name, YStr (ascii ''L''))])]
           = Inr (YStr (ascii ''L''), [], [])"
    by (simp add: merge_eval)
  from nameless_section_skipped[OF h, of "([], [])" "[]" "[]" "[]" "[(k_lecture_name, YStr (ascii ''L''))]" "[]"] e
  show ?thesis by simp
qed

section \<open>The analysis of the parts fails as a whole\<close>

lemma results_by_index:
  "map (\<lambda>(i, part). analyze_content_part E part i (length text_parts)) (enumerate 0 text_parts)
   = map (part_result E text_parts) [0..<length text_parts]"
  by (rule nth_equalityI) (simp_all add: nth_enumerate_eq part_result_def)

text \<open>
  C7: if the analysis of at least one part raises, \<open>process_all_parts\<close> raises an exception
  that carries the number of parts whose analysis raised, and returns no result; otherwise
  it returns the results of all parts in the order of the parts.
\<close>

theorem process_all_parts_all_or_nothing:
  "process_all_parts E text_parts =
     (if \<exists>i<length text_parts. isl (part_result E text_parts i)
      then Inl (Failure (length (filter (\<lambda>i. isl (part_result E text_parts i))
                                   [0..<length text_parts])))
      else Inr (map (\<lambda>i. projr (part_result E text_parts i)) [0..<length text_parts]))"
proof -
  let ?rs = "map (part_result E text_parts) [0..<length text_parts]"
  have "filter isl ?rs \<noteq> [] \<longleftrightarrow> (\<exists>i<length text_parts. isl (part_result E text_parts i))"
    by (auto simp: filter_empty_conv)
  moreover have "length (filter isl ?rs)
      = length (filter (\<lambda>i. isl (part_result E text_parts i)) [0..<length text_parts])"
    by (simp add: filter_map comp_def)
  ultimately show ?thesis
    unfolding process_all_parts_def results_by_index Let_def by (simp add: comp_def)
qed

theorem process_all_parts_all_or_nothing_witness:
  "process_all_parts (env_reply None) [[97], [98], [99]] = Inl (Failure 1) \<and>
   process_all_parts (env_reply None) [[97]] = Inr [YStr [97]]"
proof -
  have a: "\<exists>i<length [[97], [98], [99::nat]]. isl (part_result (env_reply None) [[97], [98], [99]] i)"
    by (rule exI[of _ 1]) (simp add: part_result_def analyze_content_part_def env_reply_def)
  have b: "\<not> (\<exists>i<length [[97::nat]]. isl (part_result (env_reply None) [[97]] i))"
    by (simp add: part_result_def analyze_content_part_def env_reply_def example_load_def
        py_remove.simps(2) ascii_def py_strip_def isspace_def)
  show ?thesis
    using process_all_parts_all_or_nothing[of "env_reply None" "[[97], [98], [99]]"]
      process_all_parts_all_or_nothing[of "env_reply None" "[[97]]"] a b
    apply (simp only: if_True if_False)
    apply (simp add: part_result_def analyze_content_part_def env_reply_def example_load_def
        py_remove.simps(2) ascii_def py_strip_def isspace_def upt_rec)
    done
qed

section \<open>The size adjuster\<close>

subsection \<open>What the passes keep\<close>

lemma mapM_llm_Inr:
  "mapM_llm f xs n = (Inr ys, n') \<Longrightarrow> list_all2 (\<lambda>x y. \<exists>m m'. f x m = (Inr y, m')) xs ys"
proof (induction xs arbitrary: n ys)
  case Nil
  then show ?case by simp
next
  case (Cons x xs)
  then show ?case by (auto split: prod.splits sum.splits)
qed

lemma mapM_Inr: "mapM f xs = Inr ys \<Longrightarrow> list_all2 (\<lambda>x y. f x = Inr y) xs ys"
  by (induction xs arbitrary: ys) (auto split: sum.splits)


lemma apply_section_tasks_shape:
  "length ts = length (slides sec) \<Longrightarrow> apply_section_tasks (sec, ts) = Inr sec' \<Longrightarrow>
   same_shape sec sec'"
  by (auto simp: apply_section_tasks_def same_shape_def split: sum.splits
      dest!: mapM_Inr list_all2_lengthD)

lemma compress_shape:
  assumes "compress E d n = (Inr d', n')"
  shows "lecture_name d' = lecture_name d \<and> list_all2 same_shape (sections d) (sections d')"
proof -
  from assms obtain tasks secs where
    t: "mapM_llm (section_tasks E) (sections d) n = (Inr tasks, n')" and
    s: "mapM apply_section_tasks (zip (sections d) tasks) = Inr secs" and
    d': "d' = d\<lparr>sections := secs\<rparr>"
    by (auto simp: compress_def split: prod.splits sum.splits)
  from mapM_llm_Inr[OF t] have lt: "list_all2 (\<lambda>sec ts. length ts = length (slides sec)) (sections d) tasks"
    by (rule list_all2_mono) (auto simp: section_tasks_def dest!: mapM_llm_Inr list_all2_lengthD)
  from mapM_Inr[OF s] have ls: "list_all2 (\<lambda>p sec'. apply_section_tasks p = Inr sec') (zip (sections d) tasks) secs" .
  have "list_all2 same_shape (sections d) secs"
  proof (rule list_all2_all_nthI)
    show "length (sections d) = length secs"
      using list_all2_lengthD[OF lt] list_all2_lengthD[OF ls] by simp
  next
    fix i assume i: "i < length (sections d)"
    with list_all2_lengthD[OF lt] have i2: "i < length (zip (sections d) tasks)" by simp
    from list_all2_nthD[OF ls i2] have "apply_section_tasks (sections d ! i, tasks ! i) = Inr (secs ! i)"
      using i2 by simp
    moreover from list_all2_nthD[OF lt i] have "length (tasks ! i) = length (slides (sections d ! i))" .
    ultimately show "same_shape (sections d ! i) (secs ! i)"
      by (rule apply_section_tasks_shape[rotated])
  qed
  with d' show ?thesis by simp
qed

lemma length_fallback_slides: "length (fallback_slides E ss) = min 10 (length ss)"
  by (simp add: fallback_slides_def min.commute)

lemma length_numbered_slides: "length (numbered_slides items) = length items"
  by (simp add: numbered_slides_def)

lemma summarize_count: "snd (summarize_with_openai_async E content max_tokens m) = Suc m"
  by (simp add: summarize_with_openai_async_def split: option.splits)

lemma resummarize_section_result:
  assumes "resummarize_section E sec m = (Inr sec', m')"
  shows "sec' = resummarized E sec m \<and> m' = m + (if 10 < length (slides sec) then 1 else 0)"
proof (cases "10 < length (slides sec)")
  case False
  with assms show ?thesis by (simp add: resummarize_section_def resummarized_def)
next
  case True
  with assms obtain texts where t: "mapM (slide_text E) (slides sec) = Inr texts"
    by (auto simp: resummarize_section_def split: sum.splits)
  obtain r k where s: "summarize_with_openai_async E (summary_prompt E (py_join NLNL texts)) 1000 m = (r, k)"
    by (cases "summarize_with_openai_async E (summary_prompt E (py_join NLNL texts)) 1000 m")
  from summarize_count[of E "summary_prompt E (py_join NLNL texts)" 1000 m] s have k: "k = Suc m" by simp
  from t s have "section_answer E sec m = r" by (simp add: section_answer_def)
  with assms True t s k show ?thesis
    by (simp add: resummarize_section_def resummarized_def)
qed

lemma requests_before_0 [simp]: "requests_before secs 0 = 0"
  by (simp add: requests_before_def)

lemma requests_before_Suc [simp]:
  "requests_before (sec # secs) (Suc i) =
     (if 10 < length (slides sec) then 1 else 0) + requests_before secs i"
  by (simp add: requests_before_def)

lemma resummarize_all:
  "mapM_llm (resummarize_section E) secs m = (Inr secs', m') \<Longrightarrow>
   length secs' = length secs \<and> m' = m + requests_before secs (length secs) \<and>
   (\<forall>i<length secs. secs' ! i = resummarized E (secs ! i) (m + requests_before secs i))"
proof (induction secs arbitrary: m secs')
  case Nil
  then show ?case by simp
next
  case (Cons sec secs)
  from Cons.prems obtain sec1 m1 rest where
    a: "resummarize_section E sec m = (Inr sec1, m1)" and
    b: "mapM_llm (resummarize_section E) secs m1 = (Inr rest, m')" and
    c: "secs' = sec1 # rest"
    by (auto split: prod.splits sum.splits)
  from resummarize_section_result[OF a] have
    s1: "sec1 = resummarized E sec m" and
    m1: "m1 = m + (if 10 < length (slides sec) then 1 else 0)" by simp_all
  from Cons.IH[OF b] have
    l: "length rest = length secs" and
    k: "m' = m1 + requests_before secs (length secs)" and
    r: "\<And>i. i < length secs \<Longrightarrow> rest ! i = resummarized E (secs ! i) (m1 + requests_before secs i)"
    by simp_all
  show ?case
  proof (intro conjI allI impI)
    show "length secs' = length (sec # secs)" using c l by simp
  next
    show "m' = m + requests_before (sec # secs) (length (sec # secs))"
      using k m1 by simp
  next
    fix i assume "i < length (sec # secs)"
    then show "secs' ! i = resummarized E ((sec # secs) ! i) (m + requests_before (sec # secs) i)"
      using c s1 r m1 by (cases i) (simp_all add: add.assoc)
  qed
qed



lemma section_answer_llm:
  assumes "mapM (slide_text E) (slides sec) = Inr texts"
    and "llm E m (summary_prompt E (py_join NLNL texts)) 1000 = Some a"
  shows "section_answer E sec m = py_strip a"
  using assms by (simp add: section_answer_def summarize_with_openai_async_def)

subsection \<open>Evaluating the examples\<close>

lemma length_long_text [simp]: "length (long_text n) = n"
  by (simp add: long_text_def)

lemma take_long_text [simp]: "take k (long_text n) = long_text (min k n)"
  by (simp add: long_text_def)

lemma length_kana_text [simp]: "length (kana_text n) = n"
  by (simp add: kana_text_def)

lemma bytes_kana_text [simp]: "sum_list (map utf8_len (kana_text n)) = 3 * n"
  by (simp add: kana_text_def utf8_len_def sum_list_replicate)

lemmas adjust_eval = adjust_yaml_size_async_def compress_def section_tasks_def slide_tasks_def
  apply_section_tasks_def apply_task_def resummarize_section_def replacement_slides_def
  slides_data_def numbered_slides_def fallback_slides_def create_slide_dict_def slide_text_def
  summarize_with_openai_async_def truncate_content_def py_take_def lines_of_def py_str_def
  str_join_def py_iter_def subscript_def py_strip_def isspace_def py_split.simps(2) NL_def NLNL_def
  k_number_def k_title_def k_content_def k_teaching_points_def k_slides_def ascii_def
  str_nat.simps Let_def upt_rec
  env_reply_def example_load_def doc_with_def slide_T_def slide_after_def placeholder_def
  long_slide_def dump_len_def example_dump_def slide_strings_def

subsection \<open>A document inside the band\<close>

text \<open>
  C4 as stated, for the length in bytes, fails: the code measures characters (line 157). A
  document whose only slide has a title of 3000 characters U+3042 has a dump of 9000 bytes
  of title, inside the band, but of 3000 characters, under 8000 (the keys and punctuation
  that \<open>yaml.dump\<close> adds are about a hundred ASCII characters, which changes neither): it
  is expanded, with two requests.
\<close>

theorem band_in_bytes_is_expanded_counterexample:
  "8000 \<le> dump_bytes (env_reply (Some (ascii ''x''))) (doc_with [kana_slide]) \<and>
   int (dump_bytes (env_reply (Some (ascii ''x''))) (doc_with [kana_slide])) \<le> 10000 \<and>
   dump_len (env_reply (Some (ascii ''x''))) (doc_with [kana_slide]) = 3000 \<and>
   adjust_yaml_size_async (env_reply (Some (ascii ''x''))) (doc_with [kana_slide]) 10000 0 =
     (Inr (doc_with [kana_slide_expanded (ascii ''x'')]), 2)"
  by (simp add: adjust_eval dump_bytes_def kana_slide_def kana_slide_expanded_def
      expand_section_def expand_slide_def expand_content_def expand_points_def)

text \<open>
  C4, amended: a document whose dump has at least 8000 and at most \<open>max_chars\<close> characters
  is returned as it is, and the number of requests made is the number made before.
\<close>

theorem adjust_in_band_unchanged:
  assumes "8000 \<le> dump_len E yaml_data" and "int (dump_len E yaml_data) \<le> max_chars"
  shows "adjust_yaml_size_async E yaml_data max_chars n = (Inr yaml_data, n)"
  using assms by (simp add: adjust_yaml_size_async_def Let_def)

theorem adjust_in_band_unchanged_witness:
  "8000 \<le> dump_len (env_reply None) (doc_with (map slide_T [1..<10])) \<and>
   int (dump_len (env_reply None) (doc_with (map slide_T [1..<10]))) \<le> 10000 \<and>
   adjust_yaml_size_async (env_reply None) (doc_with (map slide_T [1..<10])) 10000 0
     = (Inr (doc_with (map slide_T [1..<10])), 0)"
proof -
  have m: "dump_len (env_reply None) (doc_with (map slide_T [1..<10])) = 9000"
    by (simp add: env_reply_def dump_len_def example_dump_def slide_strings_def doc_with_def
        slide_T_def upt_rec
        k_title_def k_content_def k_number_def ascii_def)
  have a: "8000 \<le> dump_len (env_reply None) (doc_with (map slide_T [1..<10]))"
    using m by simp
  have b: "int (dump_len (env_reply None) (doc_with (map slide_T [1..<10]))) \<le> 10000"
    using m by simp
  from adjust_in_band_unchanged [OF a b, of 0] a b show ?thesis by simp
qed

subsection \<open>The lecture name and the slides of a section\<close>





subsection \<open>The slides that replace a long section\<close>

lemma number_of_created: "map_of (create_slide_dict sd i) k_number = Some (YStr (str_nat (i + 1)))"
  by (simp add: create_slide_dict_def split: yval.splits)

lemma numbers_of_numbered:
  "map (\<lambda>s. map_of s k_number) (numbered_slides items)
   = map (\<lambda>j. Some (YStr (str_nat (j + 1)))) [0..<length items]"
  by (rule nth_equalityI) (simp_all add: numbered_slides_def nth_enumerate_eq number_of_created)

lemma numbers_of_fallback:
  "map (\<lambda>s. map_of s k_number) (fallback_slides E ss)
   = map (\<lambda>j. Some (YStr (str_nat (j + 1)))) [0..<length (fallback_slides E ss)]"
  by (rule nth_equalityI) (simp_all add: fallback_slides_def nth_enumerate_eq)

lemma numbers_of_replacement:
  "map (\<lambda>s. map_of s k_number) (replacement_slides E ss r)
   = map (\<lambda>j. Some (YStr (str_nat (j + 1)))) [0..<length (replacement_slides E ss r)]"
  by (simp add: replacement_slides_def numbers_of_fallback numbers_of_numbered
      length_numbered_slides split: option.splits sum.splits)

lemma length_replacement:
  "10 < length ss \<Longrightarrow>
   length (replacement_slides E ss r) =
     (case safe_load E r of
        None \<Rightarrow> 10
      | Some v \<Rightarrow> (case slides_data E v of Inl e \<Rightarrow> 10 | Inr items \<Rightarrow> length items))"
  by (simp add: replacement_slides_def length_fallback_slides length_numbered_slides
      split: option.splits sum.splits)

text \<open>
  C9 as stated fails: the answer \<open>'- title: X'\<close> parses to a list of one slide, and a section
  of 11 slides is left with that one slide, not with ten.
\<close>

theorem resummarized_to_one_slide_counterexample:
  "example_load (ascii ''- title: X'') = Some (YList [YDict [(k_title, YStr (ascii ''X''))]]) \<and>
   adjust_yaml_size_async (env_reply (Some (ascii ''- title: X'')))
     (doc_with (map slide_T [1..<12])) 10000 0 = (Inr (doc_with [placeholder (ascii ''X'') 1]), 23)"
  by (simp add: adjust_eval)

text \<open>
  C9, amended: when the document measures more than \<open>max_chars\<close> before and after the
  compression of the slides, the slides of every section with more than ten slides are
  replaced by the slides made from the answer to the request of that section
  (\<open>section_answer\<close>, the request made after those of the compression and of the sections
  before it): one slide for every item the answer parses to, ten when it does not parse or
  parses to something that cannot be iterated, numbered 1, 2, ... in order. One request is
  made for each such section.
\<close>

theorem resummarized_sections_follow_response:
  assumes "8000 \<le> dump_len E d" and "max_chars < int (dump_len E d)"
    and c: "compress E d n = (Inr c, n1)" and "max_chars < int (dump_len E c)"
    and res: "adjust_yaml_size_async E d max_chars n = (Inr d', n')"
    and i: "i < length (sections d)" "10 < length (slides (sections d ! i))"
  shows "slides (sections d' ! i) =
           replacement_slides E (slides (sections c ! i))
             (section_answer E (sections c ! i) (n1 + requests_before (sections c) i)) \<and>
         length (slides (sections d' ! i)) =
           (case safe_load E (section_answer E (sections c ! i)
                                (n1 + requests_before (sections c) i)) of
              None \<Rightarrow> 10
            | Some v \<Rightarrow> (case slides_data E v of Inl e \<Rightarrow> 10 | Inr items \<Rightarrow> length items)) \<and>
         map (\<lambda>s. map_of s k_number) (slides (sections d' ! i)) =
           map (\<lambda>j. Some (YStr (str_nat (j + 1)))) [0..<length (slides (sections d' ! i))] \<and>
         n' = n1 + requests_before (sections c) (length (sections c))"
proof -
  let ?r = "section_answer E (sections c ! i) (n1 + requests_before (sections c) i)"
  from assms obtain secs where
    m: "mapM_llm (resummarize_section E) (sections c) n1 = (Inr secs, n')" and
    d': "d' = c\<lparr>sections := secs\<rparr>"
    by (auto simp: adjust_yaml_size_async_def Let_def split: prod.splits sum.splits)
  from compress_shape[OF c] have sh: "list_all2 same_shape (sections d) (sections c)" by simp
  with i have ic: "i < length (sections c)" and big: "10 < length (slides (sections c ! i))"
    by (auto simp: list_all2_conv_all_nth same_shape_def)
  from resummarize_all[OF m] ic have "secs ! i = resummarized E (sections c ! i) (n1 + requests_before (sections c) i)"
    by simp
  with big have r: "slides (secs ! i) = replacement_slides E (slides (sections c ! i)) ?r"
    by (simp add: resummarized_def)
  from resummarize_all[OF m] have "n' = n1 + requests_before (sections c) (length (sections c))"
    by simp
  then show ?thesis
    using r d' length_replacement[OF big, of E ?r]
      numbers_of_replacement[of E "slides (sections c ! i)" ?r]
    by simp
qed

theorem resummarized_sections_follow_response_witness:
  "8000 \<le> dump_len (env_reply (Some (ascii ''- title: X''))) (doc_with (map slide_T [1..<12])) \<and>
   10000 < int (dump_len (env_reply (Some (ascii ''- title: X'')))
                  (doc_with (map slide_T [1..<12]))) \<and>
   compress (env_reply (Some (ascii ''- title: X''))) (doc_with (map slide_T [1..<12])) 0 =
     (Inr (doc_with (map (slide_after (ascii ''- title: X'')) [1..<12])), 22) \<and>
   adjust_yaml_size_async (env_reply (Some (ascii ''- title: X'')))
     (doc_with (map slide_T [1..<12])) 10000 0 = (Inr (doc_with [placeholder (ascii ''X'') 1]), 23) \<and>
   10 < length (slides (sections (doc_with (map slide_T [1..<12])) ! 0)) \<and>
   section_answer (env_reply (Some (ascii ''- title: X'')))
     (sections (doc_with (map (slide_after (ascii ''- title: X'')) [1..<12])) ! 0)
     (22 + requests_before (sections (doc_with (map (slide_after (ascii ''- title: X''))
                                                 [1..<12]))) 0) =
     ascii ''- title: X'' \<and>
   slides (sections (doc_with [placeholder (ascii ''X'') 1]) ! 0) =
     replacement_slides (env_reply (Some (ascii ''- title: X'')))
       (slides (sections (doc_with (map (slide_after (ascii ''- title: X'')) [1..<12])) ! 0))
       (section_answer (env_reply (Some (ascii ''- title: X'')))
          (sections (doc_with (map (slide_after (ascii ''- title: X'')) [1..<12])) ! 0)
          (22 + requests_before (sections (doc_with (map (slide_after (ascii ''- title: X''))
                                                      [1..<12]))) 0)) \<and>
   map (\<lambda>s. map_of s k_number) (slides (sections (doc_with [placeholder (ascii ''X'') 1]) ! 0)) =
     map (\<lambda>j. Some (YStr (str_nat (j + 1))))
       [0..<length (slides (sections (doc_with [placeholder (ascii ''X'') 1]) ! 0))] \<and>
   (23::nat) = 22 + requests_before
                      (sections (doc_with (map (slide_after (ascii ''- title: X'')) [1..<12])))
                      (length (sections (doc_with (map (slide_after (ascii ''- title: X''))
                                                     [1..<12]))))"
proof -
  let ?E = "env_reply (Some (ascii ''- title: X''))"
  let ?D = "doc_with (map slide_T [1..<12])"
  let ?C = "doc_with (map (slide_after (ascii ''- title: X'')) [1..<12])"
  have h1: "8000 \<le> dump_len ?E ?D" by (simp add: adjust_eval)
  have h2: "10000 < int (dump_len ?E ?D)" by (simp add: adjust_eval)
  have h3: "compress ?E ?D 0 = (Inr ?C, 22)" by (simp add: adjust_eval)
  have h4: "10000 < int (dump_len ?E ?C)" by (simp add: adjust_eval)
  have h5: "adjust_yaml_size_async ?E ?D 10000 0 = (Inr (doc_with [placeholder (ascii ''X'') 1]), 23)"
    by (simp add: adjust_eval)
  have h6: "0 < length (sections ?D)" by (simp add: doc_with_def)
  have h7: "10 < length (slides (sections ?D ! 0))" by (simp add: doc_with_def)
  have a: "section_answer ?E (sections ?C ! 0) (22 + requests_before (sections ?C) 0) =
             ascii ''- title: X''"
    by (simp add: section_answer_def requests_before_def adjust_eval)
  from resummarized_sections_follow_response [OF h1 h2 h3 h4 h5 h6 h7] h1 h2 h3 h5 h7 a
  show ?thesis by blast
qed

subsection \<open>A request that fails\<close>

lemma strs_of_error: "strs_of xs = Inl e \<Longrightarrow> e = TypeError"
  by (induction xs arbitrary: e) (auto split: yval.splits sum.splits)

lemma str_join_error: "str_join sep xs = Inl e \<Longrightarrow> e = TypeError"
  by (auto simp: str_join_def split: sum.splits dest: strs_of_error)

lemma join_iter_error: "join_iter sep v = Inl e \<Longrightarrow> e = TypeError"
  by (auto simp: join_iter_def py_iter_def split: sum.splits yval.splits dest: str_join_error)

lemma mapM_llm_Inl:
  "mapM_llm f xs n = (Inl e, n') \<Longrightarrow> \<exists>x m m'. f x m = (Inl e, m')"
proof (induction xs arbitrary: n)
  case Nil
  then show ?case by simp
next
  case (Cons x xs)
  then show ?case by (auto split: prod.splits sum.splits)
qed

lemma mapM_Inl: "mapM f xs = Inl e \<Longrightarrow> \<exists>x. f x = Inl e"
  by (induction xs) (auto split: sum.splits)

lemma foldM_Inl: "foldM f s xs = Inl e \<Longrightarrow> \<exists>s' x. f s' x = Inl e"
  by (induction xs arbitrary: s) (auto split: sum.splits)

lemma expand_slide_error: "expand_slide E slide n = (Inl e, n') \<Longrightarrow> local_error e"
  by (auto simp: expand_slide_def expand_content_def expand_points_def local_error_def
      split: prod.splits sum.splits option.splits yval.splits
      dest: str_join_error join_iter_error)

lemma expand_section_error: "expand_section E sec n = (Inl e, n') \<Longrightarrow> local_error e"
  by (auto simp: expand_section_def split: prod.splits sum.splits
      dest!: mapM_llm_Inl dest: expand_slide_error)

lemma slide_tasks_error: "slide_tasks E slide n = (Inl e, n') \<Longrightarrow> local_error e"
  by (auto simp: slide_tasks_def local_error_def
      split: prod.splits sum.splits option.splits yval.splits if_splits
      dest: str_join_error)

lemma apply_task_error: "apply_task slide task = Inl e \<Longrightarrow> local_error e"
  by (auto simp: apply_task_def local_error_def
      split: prod.splits task_type.splits option.splits yval.splits)

lemma compress_error: "compress E d n = (Inl e, n') \<Longrightarrow> local_error e"
  by (auto simp: compress_def section_tasks_def apply_section_tasks_def
      split: prod.splits sum.splits
      dest!: mapM_llm_Inl mapM_Inl foldM_Inl dest: slide_tasks_error apply_task_error)

lemma slide_text_error: "slide_text E slide = Inl e \<Longrightarrow> local_error e"
  by (auto simp: slide_text_def subscript_def local_error_def split: sum.splits option.splits)

lemma resummarize_section_error: "resummarize_section E sec n = (Inl e, n') \<Longrightarrow> local_error e"
  by (auto simp: resummarize_section_def split: if_splits prod.splits sum.splits
      dest!: mapM_Inl dest: slide_text_error)

lemma adjust_error:
  "adjust_yaml_size_async E d max_chars n = (Inl e, n') \<Longrightarrow> local_error e"
  by (auto simp: adjust_yaml_size_async_def Let_def split: if_splits prod.splits sum.splits
      dest!: mapM_llm_Inl dest: expand_section_error compress_error resummarize_section_error)

text \<open>
  C8 as stated fails: with every request failing, the size adjuster returns a document, and
  the content of 10001 characters of its slide has become the first 97 characters followed
  by \<open>'...'\<close>. No parsing was involved: the section has one slide.
\<close>

theorem failed_request_truncates_counterexample:
  "llm (env_reply None) 0 (long_text 10001) 100 = None \<and>
   adjust_yaml_size_async (env_reply None) (doc_with [long_slide (long_text 10001)]) 10000 0 =
     (Inr (doc_with [long_slide (long_text 97 @ ascii ''...'')]), 2)"
  by (simp add: adjust_eval)

text \<open>
  C8, amended: a request of the size adjuster that fails raises nothing. Its result is the
  text of the request, cut to \<open>max_tokens - 3\<close> characters followed by \<open>'...'\<close> when it is
  longer than \<open>max_tokens\<close> characters, and the size adjuster never raises a transport error.
\<close>

theorem transport_failure_is_truncated:
  assumes "llm E m content max_tokens = None"
  shows "summarize_with_openai_async E content max_tokens m =
           (if int (length content) \<le> max_tokens then content
            else py_take (max_tokens - 3) content @ ascii ''...'', Suc m) \<and>
         fst (adjust_yaml_size_async E d max_chars n) \<noteq> Inl TransportError"
proof -
  have "fst (adjust_yaml_size_async E d max_chars n) \<noteq> Inl TransportError"
  proof
    assume "fst (adjust_yaml_size_async E d max_chars n) = Inl TransportError"
    then obtain n' where "adjust_yaml_size_async E d max_chars n = (Inl TransportError, n')"
      by (cases "adjust_yaml_size_async E d max_chars n") auto
    from adjust_error[OF this] show False by (simp add: local_error_def)
  qed
  with assms show ?thesis
    by (simp add: summarize_with_openai_async_def truncate_content_def)
qed

theorem transport_failure_is_truncated_witness:
  "llm (env_reply None) 0 (long_text 10001) 100 = None \<and>
   summarize_with_openai_async (env_reply None) (long_text 10001) 100 0 =
     (long_text 97 @ ascii ''...'', 1) \<and>
   fst (adjust_yaml_size_async (env_reply None) (doc_with [long_slide (long_text 10001)]) 10000 0)
     \<noteq> Inl TransportError"
proof -
  have h: "llm (env_reply None) 0 (long_text 10001) 100 = None" by (simp add: env_reply_def)
  from transport_failure_is_truncated [OF h, of "doc_with [long_slide (long_text 10001)]" 10000 0] h
  show ?thesis by (simp add: py_take_def)
qed

subsection \<open>The slides set when the answer does not parse\<close>

text \<open>
  C5 asks for placeholder slides titled with the titles of the first ten slides. The section
  has 11 slides with the same title of 1000 characters \<open>T\<close>, and the answer \<open>'['\<close> of its
  request does not parse. Nothing is raised and ten slides without content replace the 11,
  but the title of each is \<open>str\<close> of the whole slide it stands for (line 310), a text
  \<open>{'number': '1', 'title': 'TT...T', 'content': ['['], 'teaching_points': '['}\<close>, not the
  title of that slide.
\<close>

theorem fallback_titles_are_whole_slides:
  "example_load (ascii ''['') = None \<and>
   adjust_yaml_size_async (env_reply (Some (ascii ''[''))) (doc_with (map slide_T [1..<12]))
     10000 0 =
     (Inr (doc_with (map (\<lambda>i. placeholder (simple_repr (YDict (slide_after (ascii ''['') i))) i)
                       [1..<11])), 23) \<and>
   simple_repr (YDict (slide_after (ascii ''['') 1)) \<noteq> long_text 1000"
proof -
  have a: "hd (simple_repr (YDict (slide_after (ascii ''['') 1))) = 123"
    by simp
  have b: "hd (long_text 1000) = 84"
    by (simp add: long_text_def)
  have "simple_repr (YDict (slide_after (ascii ''['') 1)) \<noteq> long_text 1000"
  proof
    assume "simple_repr (YDict (slide_after (ascii ''['') 1)) = long_text 1000"
    then have "hd (simple_repr (YDict (slide_after (ascii ''['') 1))) = hd (long_text 1000)"
      by (rule arg_cong)
    with a b show False by simp
  qed
  then show ?thesis by (simp add: adjust_eval)
qed

end
